theory Spec2Isabelle
  imports Main "HOL-Library.Word"
begin

unbundle bit_operations_syntax

section \<open>GDSC regulator: data model\<close>

text \<open>
  A shallow embedding of the regulator operations of
  \<^verbatim>\<open>drivers/clk/qcom/gdsc-regulator.c\<close>: \<^verbatim>\<open>poll_gdsc_status\<close>,
  \<^verbatim>\<open>gdsc_is_enabled\<close>, \<^verbatim>\<open>gdsc_enable\<close>, \<^verbatim>\<open>gdsc_disable\<close>,
  \<^verbatim>\<open>gdsc_get_mode\<close> and \<^verbatim>\<open>gdsc_set_mode\<close>.

  Registers are 32-bit words. A \<^verbatim>\<open>struct regmap *\<close>, a \<^verbatim>\<open>struct clk *\<close>, a
  \<^verbatim>\<open>struct reset_control *\<close> and the parent \<^verbatim>\<open>struct regulator *\<close> are handles;
  a pointer that may be NULL is an option. Every call into the kernel (regmap, udelay,
  clk, reset, regulator core) is one event appended to a trace, in program order.
  All register accesses of the driver are at \<^verbatim>\<open>REG_OFFSET\<close> = 0, so an access is
  identified by its regmap alone. Accesses of a memory-mapped regmap at offset 0 return 0;
  the driver ignores the return value everywhere except in \<^verbatim>\<open>gdsc_set_mode\<close>.
  The \<^verbatim>\<open>dev_warn\<close>/\<^verbatim>\<open>dev_err\<close> log lines are not part of the trace.
\<close>

type_synonym u32 = "32 word"
type_synonym regmap = nat
type_synonym regulator = nat

text \<open>GDSCR bits, domain-address bits, SW-reset bit (lines 26-46 of the source).\<close>

definition PWR_ON_MASK :: u32 where "PWR_ON_MASK = 0x80000000"
definition RETAIN_FF_ENABLE_MASK :: u32 where "RETAIN_FF_ENABLE_MASK = 0x800"
definition HW_CONTROL_MASK :: u32 where "HW_CONTROL_MASK = 0x2"
definition SW_COLLAPSE_MASK :: u32 where "SW_COLLAPSE_MASK = 0x1"
definition GMEM_CLAMP_IO_MASK :: u32 where "GMEM_CLAMP_IO_MASK = 0x1"
definition GMEM_RESET_MASK :: u32 where "GMEM_RESET_MASK = 0x10"
definition BCR_BLK_ARES_BIT :: u32 where "BCR_BLK_ARES_BIT = 0x1"
definition TIMEOUT_US :: nat where "TIMEOUT_US = 100"

text \<open>Modelled from the spec: the kernel macro \<^verbatim>\<open>BIT(n)\<close> is not among the sources. The
  vote register's "bit = consumer's vote index" is bit \<open>n\<close> of a 32-bit register, so
  \<^verbatim>\<open>BIT(n)\<close> is 1 shifted left by \<open>n\<close>, truncated to the 32-bit mask argument of
  \<^verbatim>\<open>regmap_update_bits\<close>.\<close>

definition BIT :: "u32 \<Rightarrow> u32" where "BIT n = push_bit (unat n) 1"

text \<open>Modelled from the spec: the kernel headers that declare the errno values and the
  regulator modes are not among the sources. The error kinds Busy, Timeout and InvalidState
  are \<^verbatim>\<open>-EBUSY\<close>, \<^verbatim>\<open>-ETIMEDOUT\<close> and \<^verbatim>\<open>-EIO\<close> (\<^verbatim>\<open>-EINVAL\<close> for an invalid mode); the
  hardware-autonomous mode is \<^verbatim>\<open>REGULATOR_MODE_FAST\<close>, the software-controlled mode
  \<^verbatim>\<open>REGULATOR_MODE_NORMAL\<close>. The numbers are the kernel's; the statements below use only
  that the errno values are positive and the two modes differ.\<close>

definition EIO :: int where "EIO = 5"
definition EBUSY :: int where "EBUSY = 16"
definition EINVAL :: int where "EINVAL = 22"
definition ETIMEDOUT :: int where "ETIMEDOUT = 110"
definition REGULATOR_MODE_FAST :: u32 where "REGULATOR_MODE_FAST = 0x1"
definition REGULATOR_MODE_NORMAL :: u32 where "REGULATOR_MODE_NORMAL = 0x2"

text \<open>
  \<^verbatim>\<open>struct gdsc\<close> (lines 53-81), the fields the operations use. The
  \<^verbatim>\<open>collapse_vote\<close> member is flattened into its two fields. A clock or reset line is
  named by its index into \<^verbatim>\<open>clocks\<close> / \<^verbatim>\<open>reset_clocks\<close>.
\<close>

record gdsc =
  regmap :: regmap
  domain_addr :: "regmap option"
  hw_ctrl :: "regmap option"
  sw_reset :: "regmap option"
  acd_reset :: "regmap option"
  acd_misc_reset :: "regmap option"
  collapse_vote_regmap :: "regmap option"
  collapse_vote_bit :: u32
  toggle_logic :: bool
  retain_ff_enable :: bool
  resets_asserted :: bool
  root_en :: bool
  force_root_en :: bool
  no_status_check_on_disable :: bool
  is_gdsc_enabled :: bool
  is_gdsc_hw_ctrl_mode :: bool
  is_root_clk_voted :: bool
  reset_aon :: bool
  reset_count :: int
  root_clk_idx :: int
  gds_timeout :: u32
  skip_disable_before_enable :: bool

text \<open>The part of \<^verbatim>\<open>struct regulator_dev\<close> the operations read: the optional
  parent supply and the driver data.\<close>

record regulator_dev =
  rdev_supply :: "regulator option"
  drvdata :: gdsc

datatype gdscr_status = ENABLED | DISABLED

datatype event =
    EvRead regmap
  | EvWrite regmap u32
  | EvUpdateBits regmap u32 u32
  | EvDelay nat
  | EvClkPrepareEnable int
  | EvClkDisableUnprepare int
  | EvResetAssert int
  | EvResetDeassert int
  | EvLock regulator
  | EvIsEnabled regulator
  | EvUnlock regulator

text \<open>
  The hardware and the regulator core are an environment: what a register read
  returns, and what the parent reports, are functions of everything that happened before.
\<close>

record env =
  reg_value :: "event list \<Rightarrow> regmap \<Rightarrow> u32"
  supply_enabled :: "event list \<Rightarrow> regulator \<Rightarrow> int"

section \<open>Kernel primitives\<close>

text \<open>Modelled from the spec: the external collaborators (register port with read, write
  and read-modify-write, microsecond delay, root clock with prepare-enable and disable, reset
  lines with assert and de-assert, parent regulator with lock, unlock and enabled query) are
  kernel code that is not among the sources. Each call appends its event to the trace; a
  read and the parent query return what the environment gives for the trace so far.\<close>

definition regmap_read :: "env \<Rightarrow> regmap \<Rightarrow> event list \<Rightarrow> u32 \<times> event list" where
  "regmap_read e r tr = (reg_value e tr r, tr @ [EvRead r])"

definition regmap_write :: "regmap \<Rightarrow> u32 \<Rightarrow> event list \<Rightarrow> event list" where
  "regmap_write r v tr = tr @ [EvWrite r v]"

definition regmap_update_bits :: "regmap \<Rightarrow> u32 \<Rightarrow> u32 \<Rightarrow> event list \<Rightarrow> event list" where
  "regmap_update_bits r msk val tr = tr @ [EvUpdateBits r msk val]"

definition udelay :: "nat \<Rightarrow> event list \<Rightarrow> event list" where
  "udelay us tr = tr @ [EvDelay us]"

definition clk_prepare_enable :: "int \<Rightarrow> event list \<Rightarrow> event list" where
  "clk_prepare_enable c tr = tr @ [EvClkPrepareEnable c]"

definition clk_disable_unprepare :: "int \<Rightarrow> event list \<Rightarrow> event list" where
  "clk_disable_unprepare c tr = tr @ [EvClkDisableUnprepare c]"

definition reset_control_assert :: "int \<Rightarrow> event list \<Rightarrow> event list" where
  "reset_control_assert i tr = tr @ [EvResetAssert i]"

definition reset_control_deassert :: "int \<Rightarrow> event list \<Rightarrow> event list" where
  "reset_control_deassert i tr = tr @ [EvResetDeassert i]"

definition regulator_lock :: "regulator \<Rightarrow> event list \<Rightarrow> event list" where
  "regulator_lock p tr = tr @ [EvLock p]"

definition regulator_unlock :: "regulator \<Rightarrow> event list \<Rightarrow> event list" where
  "regulator_unlock p tr = tr @ [EvUnlock p]"

definition regulator_is_enabled :: "env \<Rightarrow> regulator \<Rightarrow> event list \<Rightarrow> int \<times> event list" where
  "regulator_is_enabled e p tr = (supply_enabled e tr p, tr @ [EvIsEnabled p])"

section \<open>The driver\<close>

text \<open>\<^verbatim>\<open>gdsc_mb\<close> (lines 88-94): a read of the primary register.\<close>

definition gdsc_mb :: "env \<Rightarrow> gdsc \<Rightarrow> event list \<Rightarrow> u32 \<times> event list" where
  "gdsc_mb e sc tr = regmap_read e (regmap sc) tr"

text \<open>\<^verbatim>\<open>poll_gdsc_status\<close> (lines 96-132). The loop counter is a C \<^verbatim>\<open>int\<close>
  initialised from the unsigned \<^verbatim>\<open>gds_timeout\<close>.\<close>

function poll_loop :: "env \<Rightarrow> regmap \<Rightarrow> gdscr_status \<Rightarrow> int \<Rightarrow> event list \<Rightarrow> int \<times> event list" where
  "poll_loop e rm status count tr =
     (if count > 0 then
        (let (val, tr) = regmap_read e rm tr;
             val = val AND PWR_ON_MASK
         in case status of
              ENABLED \<Rightarrow>
                if val \<noteq> 0 then (0, tr)
                else poll_loop e rm status (count - 1) (udelay 1 tr)
            | DISABLED \<Rightarrow>
                if val = 0 then (0, tr)
                else poll_loop e rm status (count - 1) (udelay 1 tr))
      else (- ETIMEDOUT, tr))"
  by pat_completeness auto
termination
  by (relation "measure (\<lambda>(e, rm, status, count, tr). nat count)") auto

declare poll_loop.simps [simp del]

definition poll_gdsc_status :: "env \<Rightarrow> gdsc \<Rightarrow> gdscr_status \<Rightarrow> event list \<Rightarrow> int \<times> event list" where
  "poll_gdsc_status e sc status tr =
     (let count = sint (gds_timeout sc);
          rm = (case hw_ctrl sc of Some h \<Rightarrow> h | None \<Rightarrow> regmap sc)
      in poll_loop e rm status count tr)"

text \<open>\<^verbatim>\<open>gdsc_is_enabled\<close> (lines 162-173).\<close>

definition gdsc_is_enabled :: "regulator_dev \<Rightarrow> bool" where
  "gdsc_is_enabled rdev =
     (let sc = drvdata rdev in
      if \<not> toggle_logic sc then \<not> resets_asserted sc
      else if skip_disable_before_enable sc then False
      else is_gdsc_enabled sc)"

text \<open>\<^verbatim>\<open>gdsc_enable\<close>, lines 197-226: pulse the block reset.\<close>

definition gdsc_enable_sw_reset :: "env \<Rightarrow> gdsc \<Rightarrow> u32 \<Rightarrow> event list \<Rightarrow> u32 \<times> event list" where
  "gdsc_enable_sw_reset e sc regval tr =
     (case sw_reset sc of
        None \<Rightarrow> (regval, tr)
      | Some swr \<Rightarrow>
          (let (regval, tr) = regmap_read e swr tr;
               regval = regval OR BCR_BLK_ARES_BIT;
               tr = regmap_write swr regval tr;
               tr = (case acd_reset sc of Some a \<Rightarrow> regmap_write a regval tr | None \<Rightarrow> tr);
               tr = (case acd_misc_reset sc of Some a \<Rightarrow> regmap_write a regval tr | None \<Rightarrow> tr);
               (_, tr) = gdsc_mb e sc tr;
               tr = udelay 1 tr;
               regval = regval AND NOT BCR_BLK_ARES_BIT;
               tr = regmap_write swr regval tr;
               tr = (case acd_reset sc of Some a \<Rightarrow> regmap_write a regval tr | None \<Rightarrow> tr);
               tr = (case acd_misc_reset sc of Some a \<Rightarrow> regmap_write a regval tr | None \<Rightarrow> tr);
               (_, tr) = gdsc_mb e sc tr
           in (regval, tr)))"

text \<open>\<^verbatim>\<open>gdsc_enable\<close>, lines 228-260: memory reset pulse and clamp release.\<close>

definition gdsc_enable_domain_addr :: "env \<Rightarrow> gdsc \<Rightarrow> u32 \<Rightarrow> event list \<Rightarrow> u32 \<times> event list" where
  "gdsc_enable_domain_addr e sc regval tr =
     (case domain_addr sc of
        None \<Rightarrow> (regval, tr)
      | Some da \<Rightarrow>
          (let (regval, tr) =
                 (if reset_aon sc then
                    (let (regval, tr) = regmap_read e da tr;
                         regval = regval OR GMEM_RESET_MASK;
                         tr = regmap_write da regval tr;
                         (_, tr) = gdsc_mb e sc tr;
                         tr = udelay 1 tr;
                         regval = regval AND NOT GMEM_RESET_MASK;
                         tr = regmap_write da regval tr;
                         (_, tr) = gdsc_mb e sc tr
                     in (regval, tr))
                  else (regval, tr));
               (regval, tr) = regmap_read e da tr;
               regval = regval AND NOT GMEM_CLAMP_IO_MASK;
               tr = regmap_write da regval tr;
               (_, tr) = gdsc_mb e sc tr
           in (regval, tr)))"

text \<open>\<^verbatim>\<open>gdsc_enable\<close>, lines 262-271: clear the vote bit or the collapse bit.\<close>

definition gdsc_enable_collapse :: "env \<Rightarrow> gdsc \<Rightarrow> u32 \<Rightarrow> event list \<Rightarrow> u32 \<times> event list" where
  "gdsc_enable_collapse e sc regval tr =
     (case collapse_vote_regmap sc of
        Some v \<Rightarrow>
          (regval,
           regmap_update_bits v (BIT (collapse_vote_bit sc)) (NOT (BIT (collapse_vote_bit sc))) tr)
      | None \<Rightarrow>
          (let (regval, tr) = regmap_read e (regmap sc) tr;
               regval = regval AND NOT SW_COLLAPSE_MASK;
               tr = regmap_write (regmap sc) regval tr
           in (regval, tr)))"

text \<open>\<^verbatim>\<open>gdsc_enable\<close>, lines 197-275: everything of the register-toggled branch
  before the first poll.\<close>

definition gdsc_enable_power_up :: "env \<Rightarrow> gdsc \<Rightarrow> u32 \<Rightarrow> event list \<Rightarrow> u32 \<times> event list" where
  "gdsc_enable_power_up e sc regval tr =
     (let (regval, tr) = gdsc_enable_sw_reset e sc regval tr;
          (regval, tr) = gdsc_enable_domain_addr e sc regval tr;
          (regval, tr) = gdsc_enable_collapse e sc regval tr;
          (_, tr) = gdsc_mb e sc tr;
          tr = udelay 1 tr
      in (regval, tr))"

text \<open>\<^verbatim>\<open>gdsc_enable\<close>, lines 313-316: keep the retention flops enabled.\<close>

definition gdsc_enable_retain :: "gdsc \<Rightarrow> u32 \<Rightarrow> event list \<Rightarrow> event list" where
  "gdsc_enable_retain sc regval tr =
     (if retain_ff_enable sc \<and> regval AND RETAIN_FF_ENABLE_MASK = 0
      then regmap_write (regmap sc) (regval OR RETAIN_FF_ENABLE_MASK) tr
      else tr)"

text \<open>\<^verbatim>\<open>gdsc_enable\<close>, lines 318-320: release the reset lines, first to last.\<close>

fun deassert_resets :: "int list \<Rightarrow> event list \<Rightarrow> event list" where
  "deassert_resets [] tr = tr"
| "deassert_resets (i # is) tr = deassert_resets is (reset_control_deassert i tr)"

text \<open>\<^verbatim>\<open>gdsc_enable\<close>, lines 323-341: the common end of the function.\<close>

definition gdsc_enable_done :: "regulator_dev \<Rightarrow> gdsc \<Rightarrow> int \<Rightarrow> event list \<Rightarrow> int \<times> regulator_dev \<times> event list" where
  "gdsc_enable_done rdev sc ret tr =
     (let tr = udelay 1 tr;
          tr = udelay 1 tr;
          (sc, tr) = (if force_root_en sc
                      then (sc\<lparr>is_root_clk_voted := False\<rparr>,
                            clk_disable_unprepare (root_clk_idx sc) tr)
                      else (sc, tr));
          sc = sc\<lparr>is_gdsc_enabled := True\<rparr>
      in (ret, rdev\<lparr>drvdata := sc\<rparr>, tr))"

text \<open>\<^verbatim>\<open>gdsc_enable\<close> (lines 175-342).\<close>

definition gdsc_enable :: "env \<Rightarrow> regulator_dev \<Rightarrow> event list \<Rightarrow> int \<times> regulator_dev \<times> event list" where
  "gdsc_enable e rdev tr =
     (let sc = drvdata rdev in
      if skip_disable_before_enable sc then (0, rdev, tr)
      else
        (let (sc, tr) = (if root_en sc \<or> force_root_en sc
                         then (sc\<lparr>is_root_clk_voted := True\<rparr>,
                               clk_prepare_enable (root_clk_idx sc) tr)
                         else (sc, tr));
             (regval, tr) = regmap_read e (regmap sc) tr
         in if regval AND HW_CONTROL_MASK \<noteq> 0 then (- EBUSY, rdev\<lparr>drvdata := sc\<rparr>, tr)
            else if toggle_logic sc then
              (let (regval, tr) = gdsc_enable_power_up e sc regval tr;
                   (ret, tr) = poll_gdsc_status e sc ENABLED tr
               in if ret \<noteq> 0 then
                    (let (regval, tr) = regmap_read e (regmap sc) tr
                     in case hw_ctrl sc of
                          Some h \<Rightarrow>
                            (let (hw_ctrl_regval, tr) = regmap_read e h tr;
                                 (ret, tr) = poll_gdsc_status e sc ENABLED tr
                             in if ret \<noteq> 0 then
                                  (let (regval, tr) = regmap_read e (regmap sc) tr;
                                       (hw_ctrl_regval, tr) = regmap_read e h tr
                                   in (ret, rdev\<lparr>drvdata := sc\<rparr>, tr))
                                else gdsc_enable_done rdev sc ret (gdsc_enable_retain sc regval tr))
                        | None \<Rightarrow>
                            (let tr = udelay (unat (gds_timeout sc)) tr;
                                 (regval, tr) = regmap_read e (regmap sc) tr
                             in (ret, rdev\<lparr>drvdata := sc\<rparr>, tr)))
                  else gdsc_enable_done rdev sc ret (gdsc_enable_retain sc regval tr))
            else
              (let tr = deassert_resets (map int [0 ..< nat (reset_count sc)]) tr;
                   sc = sc\<lparr>resets_asserted := False\<rparr>
               in gdsc_enable_done rdev sc 0 tr)))"

text \<open>\<^verbatim>\<open>gdsc_disable\<close>, lines 377-396: set the vote bit or the collapse bit.\<close>

definition gdsc_disable_collapse :: "env \<Rightarrow> gdsc \<Rightarrow> event list \<Rightarrow> event list" where
  "gdsc_disable_collapse e sc tr =
     (let tr = (case sw_reset sc of
                  Some swr \<Rightarrow>
                    (case acd_misc_reset sc of
                       Some a \<Rightarrow> regmap_update_bits a BCR_BLK_ARES_BIT BCR_BLK_ARES_BIT tr
                     | None \<Rightarrow> tr)
                | None \<Rightarrow> tr);
          tr = (case collapse_vote_regmap sc of
                  Some v \<Rightarrow>
                    regmap_update_bits v (BIT (collapse_vote_bit sc)) (BIT (collapse_vote_bit sc)) tr
                | None \<Rightarrow>
                    (let (regval, tr) = regmap_read e (regmap sc) tr;
                         regval = regval OR SW_COLLAPSE_MASK
                     in regmap_write (regmap sc) regval tr));
          (_, tr) = gdsc_mb e sc tr;
          tr = udelay 1 tr
      in tr)"

text \<open>\<^verbatim>\<open>gdsc_disable\<close>, lines 414-418: clamp the memory I/O again.\<close>

definition gdsc_disable_clamp :: "env \<Rightarrow> gdsc \<Rightarrow> event list \<Rightarrow> event list" where
  "gdsc_disable_clamp e sc tr =
     (case domain_addr sc of
        Some da \<Rightarrow>
          (let (regval, tr) = regmap_read e da tr;
               regval = regval OR GMEM_CLAMP_IO_MASK
           in regmap_write da regval tr)
      | None \<Rightarrow> tr)"

text \<open>\<^verbatim>\<open>gdsc_disable\<close>, lines 421-422: assert the reset lines, last to first.\<close>

fun assert_resets :: "int list \<Rightarrow> event list \<Rightarrow> event list" where
  "assert_resets [] tr = tr"
| "assert_resets (i # is) tr = assert_resets is (reset_control_assert i tr)"

text \<open>\<^verbatim>\<open>gdsc_disable\<close>, lines 368-435: the part between the parent check and the
  \<^verbatim>\<open>done\<close> label.\<close>

definition gdsc_disable_body :: "env \<Rightarrow> gdsc \<Rightarrow> event list \<Rightarrow> int \<times> gdsc \<times> event list" where
  "gdsc_disable_body e sc tr =
     (let (sc, tr) = (if force_root_en sc
                      then (sc\<lparr>is_root_clk_voted := True\<rparr>,
                            clk_prepare_enable (root_clk_idx sc) tr)
                      else (sc, tr));
          tr = udelay 1 tr;
          (ret, sc, tr) =
             (if toggle_logic sc then
                (let tr = gdsc_disable_collapse e sc tr;
                     (ret, tr) =
                        (if no_status_check_on_disable sc then (0, udelay TIMEOUT_US tr)
                         else
                           (let (ret, tr) = poll_gdsc_status e sc DISABLED tr
                            in if ret \<noteq> 0 then
                                 (let (regval, tr) = regmap_read e (regmap sc) tr in (ret, tr))
                               else (ret, tr)));
                     tr = gdsc_disable_clamp e sc tr
                 in (ret, sc, tr))
              else
                (let tr = assert_resets (rev (map int [0 ..< nat (reset_count sc)])) tr
                 in (0, sc\<lparr>resets_asserted := True\<rparr>, tr)));
          (sc, tr) = (if (is_root_clk_voted sc \<and> root_en sc) \<or> force_root_en sc
                      then (sc\<lparr>is_root_clk_voted := False\<rparr>,
                            clk_disable_unprepare (root_clk_idx sc) tr)
                      else (sc, tr));
          sc = sc\<lparr>is_gdsc_enabled := False\<rparr>
      in (ret, sc, tr))"

text \<open>\<^verbatim>\<open>gdsc_disable\<close> (lines 344-442).\<close>

definition gdsc_disable :: "env \<Rightarrow> regulator_dev \<Rightarrow> event list \<Rightarrow> int \<times> regulator_dev \<times> event list" where
  "gdsc_disable e rdev tr =
     (let sc = drvdata rdev in
      case rdev_supply rdev of
        Some p \<Rightarrow>
          (let tr = regulator_lock p tr;
               (parent_enabled, tr) = regulator_is_enabled e p tr
           in if parent_enabled < 0 then (parent_enabled, rdev, regulator_unlock p tr)
              else if parent_enabled = 0 then (- EIO, rdev, regulator_unlock p tr)
              else
                (let (ret, sc, tr) = gdsc_disable_body e sc tr
                 in (ret, rdev\<lparr>drvdata := sc\<rparr>, regulator_unlock p tr)))
      | None \<Rightarrow>
          (let (ret, sc, tr) = gdsc_disable_body e sc tr
           in (ret, rdev\<lparr>drvdata := sc\<rparr>, tr)))"

text \<open>\<^verbatim>\<open>gdsc_get_mode\<close> (lines 458-464).\<close>

definition gdsc_get_mode :: "regulator_dev \<Rightarrow> u32" where
  "gdsc_get_mode rdev =
     (if is_gdsc_hw_ctrl_mode (drvdata rdev) then REGULATOR_MODE_FAST else REGULATOR_MODE_NORMAL)"

text \<open>\<^verbatim>\<open>gdsc_set_mode\<close>, lines 496-553: the part between the parent check and the
  \<^verbatim>\<open>done\<close> label. The \<^verbatim>\<open>ret < 0\<close> tests after \<^verbatim>\<open>regmap_read\<close> and
  \<^verbatim>\<open>regmap_write\<close> see 0.\<close>

definition gdsc_set_mode_body :: "env \<Rightarrow> gdsc \<Rightarrow> u32 \<Rightarrow> event list \<Rightarrow> int \<times> gdsc \<times> event list" where
  "gdsc_set_mode_body e sc mode tr =
     (let (regval, tr) = regmap_read e (regmap sc) tr
      in if mode = REGULATOR_MODE_FAST then
           (let regval = regval OR HW_CONTROL_MASK;
                tr = regmap_write (regmap sc) regval tr;
                (_, tr) = gdsc_mb e sc tr;
                tr = udelay 1 tr
            in (0, sc\<lparr>is_gdsc_hw_ctrl_mode := True\<rparr>, tr))
         else if mode = REGULATOR_MODE_NORMAL then
           (let regval = regval AND NOT HW_CONTROL_MASK;
                tr = regmap_write (regmap sc) regval tr;
                (_, tr) = gdsc_mb e sc tr;
                tr = udelay 1 tr
            in if is_gdsc_enabled sc then
                 (let (ret, tr) = poll_gdsc_status e sc ENABLED tr
                  in if ret \<noteq> 0 then (ret, sc, tr)
                     else (0, sc\<lparr>is_gdsc_hw_ctrl_mode := False\<rparr>, tr))
               else (0, sc\<lparr>is_gdsc_hw_ctrl_mode := False\<rparr>, tr))
         else (- EINVAL, sc, tr))"

text \<open>\<^verbatim>\<open>gdsc_set_mode\<close> (lines 466-560).\<close>

definition gdsc_set_mode :: "env \<Rightarrow> regulator_dev \<Rightarrow> u32 \<Rightarrow> event list \<Rightarrow> int \<times> regulator_dev \<times> event list" where
  "gdsc_set_mode e rdev mode tr =
     (let sc = drvdata rdev in
      case rdev_supply rdev of
        Some p \<Rightarrow>
          (let tr = regulator_lock p tr;
               (ret, tr) = regulator_is_enabled e p tr
           in if ret < 0 then (ret, rdev, regulator_unlock p tr)
              else if ret = 0 then (- EIO, rdev, regulator_unlock p tr)
              else
                (let (ret, sc, tr) = gdsc_set_mode_body e sc mode tr
                 in (ret, rdev\<lparr>drvdata := sc\<rparr>, regulator_unlock p tr)))
      | None \<Rightarrow>
          (let (ret, sc, tr) = gdsc_set_mode_body e sc mode tr
           in (ret, rdev\<lparr>drvdata := sc\<rparr>, tr)))"

section \<open>Vocabulary of the statements and example inputs\<close>

text \<open>\<open>n\<close> failed iterations of the poll loop on register \<open>r\<close>: a read, then \<^verbatim>\<open>udelay(1)\<close>.\<close>

definition poll_rounds :: "regmap \<Rightarrow> nat \<Rightarrow> event list" where
  "poll_rounds r n = concat (replicate n [EvRead r, EvDelay 1])"

text \<open>Whether a sample of register \<open>r\<close>, taken after the trace \<open>tr\<close>, has the \<^verbatim>\<open>pwr_on\<close> bit
  in the state the caller waits for.\<close>

definition status_matches :: "env \<Rightarrow> regmap \<Rightarrow> gdscr_status \<Rightarrow> event list \<Rightarrow> bool" where
  "status_matches e r status tr =
     (case status of
        ENABLED \<Rightarrow> reg_value e tr r AND PWR_ON_MASK \<noteq> 0
      | DISABLED \<Rightarrow> reg_value e tr r AND PWR_ON_MASK = 0)"

text \<open>The status register: the hardware-status register when the domain has one, the
  primary register otherwise.\<close>

definition status_regmap :: "gdsc \<Rightarrow> regmap" where
  "status_regmap sc = (case hw_ctrl sc of Some h \<Rightarrow> h | None \<Rightarrow> regmap sc)"

text \<open>How often the lock of regulator \<open>p\<close> is held at the end of a trace: locks minus
  unlocks.\<close>

definition locks_held :: "regulator \<Rightarrow> event list \<Rightarrow> int" where
  "locks_held p tr =
     int (length (filter (\<lambda>ev. ev = EvLock p) tr)) - int (length (filter (\<lambda>ev. ev = EvUnlock p) tr))"

text \<open>The register writes of a trace, in order.\<close>

fun is_reg_write :: "event \<Rightarrow> bool" where
  "is_reg_write (EvWrite r v) = True"
| "is_reg_write (EvUpdateBits r m v) = True"
| "is_reg_write ev = False"

definition reg_writes :: "event list \<Rightarrow> event list" where
  "reg_writes tr = filter is_reg_write tr"

text \<open>The root-clock events of \<^verbatim>\<open>gdsc_enable\<close> (lines 184-187 and 334-337) and of
  \<^verbatim>\<open>gdsc_disable\<close> (lines 368-371 and 430-433).\<close>

definition root_clk_on :: "gdsc \<Rightarrow> event list" where
  "root_clk_on sc =
     (if root_en sc \<or> force_root_en sc then [EvClkPrepareEnable (root_clk_idx sc)] else [])"

definition force_clk_on :: "gdsc \<Rightarrow> event list" where
  "force_clk_on sc = (if force_root_en sc then [EvClkPrepareEnable (root_clk_idx sc)] else [])"

definition force_clk_off :: "gdsc \<Rightarrow> event list" where
  "force_clk_off sc = (if force_root_en sc then [EvClkDisableUnprepare (root_clk_idx sc)] else [])"

definition disable_clk_off :: "gdsc \<Rightarrow> event list" where
  "disable_clk_off sc =
     (if (is_root_clk_voted sc \<and> root_en sc) \<or> force_root_en sc
      then [EvClkDisableUnprepare (root_clk_idx sc)] else [])"

text \<open>The events of the parent check of \<^verbatim>\<open>gdsc_disable\<close> and \<^verbatim>\<open>gdsc_set_mode\<close>, the
  unlock at the \<^verbatim>\<open>done\<close> label, and the parent check passing: no parent, or a parent that
  reports a positive value.\<close>

definition parent_check :: "regulator_dev \<Rightarrow> event list" where
  "parent_check rdev =
     (case rdev_supply rdev of Some p \<Rightarrow> [EvLock p, EvIsEnabled p] | None \<Rightarrow> [])"

definition parent_unlock :: "regulator_dev \<Rightarrow> event list" where
  "parent_unlock rdev = (case rdev_supply rdev of Some p \<Rightarrow> [EvUnlock p] | None \<Rightarrow> [])"

definition parent_check_passes :: "env \<Rightarrow> regulator_dev \<Rightarrow> event list \<Rightarrow> bool" where
  "parent_check_passes e rdev tr =
     (case rdev_supply rdev of
        None \<Rightarrow> True
      | Some p \<Rightarrow> 0 < supply_enabled e (tr @ [EvLock p]) p)"

text \<open>The clamp step of \<^verbatim>\<open>gdsc_disable\<close> (lines 414-418), as events after the trace \<open>t\<close>.\<close>

definition clamp_events :: "env \<Rightarrow> gdsc \<Rightarrow> event list \<Rightarrow> event list" where
  "clamp_events e sc t =
     (case domain_addr sc of
        Some da \<Rightarrow> [EvRead da, EvWrite da (reg_value e t da OR GMEM_CLAMP_IO_MASK)]
      | None \<Rightarrow> [])"

text \<open>Example inputs. A register-toggled domain with only the primary register (regmap 0),
  no root clock and the default timeout, as \<^verbatim>\<open>gdsc_probe\<close> leaves it when the device node
  has no optional property; the examples below vary it by record update.\<close>

definition gdsc_plain :: gdsc where
  "gdsc_plain =
     \<lparr>regmap = 0, domain_addr = None, hw_ctrl = None, sw_reset = None, acd_reset = None,
      acd_misc_reset = None, collapse_vote_regmap = None, collapse_vote_bit = 0,
      toggle_logic = True, retain_ff_enable = False, resets_asserted = False,
      root_en = False, force_root_en = False, no_status_check_on_disable = False,
      is_gdsc_enabled = False, is_gdsc_hw_ctrl_mode = False, is_root_clk_voted = False,
      reset_aon = False, reset_count = 0, root_clk_idx = - 1, gds_timeout = 100,
      skip_disable_before_enable = False\<rparr>"

text \<open>Hardware whose registers all read \<open>v\<close>, hardware whose registers each read a fixed
  value, and hardware whose registers read 0 until \<open>n\<close> events have happened and
  \<^verbatim>\<open>pwr_on\<close> from then on. The parent, if any, reports enabled.\<close>

definition hw_const :: "u32 \<Rightarrow> env" where
  "hw_const v = \<lparr>reg_value = (\<lambda>tr r. v), supply_enabled = (\<lambda>tr p. 1)\<rparr>"

definition hw_regs :: "(regmap \<Rightarrow> u32) \<Rightarrow> env" where
  "hw_regs f = \<lparr>reg_value = (\<lambda>tr r. f r), supply_enabled = (\<lambda>tr p. 1)\<rparr>"

definition hw_on_after :: "nat \<Rightarrow> env" where
  "hw_on_after n =
     \<lparr>reg_value = (\<lambda>tr r. if n \<le> length tr then 0x80000000 else 0),
      supply_enabled = (\<lambda>tr p. 1)\<rparr>"

section \<open>The poll engine\<close>

lemma poll_rounds_0 [simp]: "poll_rounds r 0 = []"
  by (simp add: poll_rounds_def)

lemma poll_rounds_Suc: "poll_rounds r (Suc n) = EvRead r # EvDelay 1 # poll_rounds r n"
  by (simp add: poll_rounds_def)

lemma poll_loop_nonpos: "count \<le> 0 \<Longrightarrow> poll_loop e r status count tr = (- ETIMEDOUT, tr)"
  by (simp add: poll_loop.simps)

lemma poll_loop_step_fail:
  "0 < count \<Longrightarrow> \<not> status_matches e r status tr \<Longrightarrow>
   poll_loop e r status count tr = poll_loop e r status (count - 1) (tr @ [EvRead r, EvDelay 1])"
  by (subst poll_loop.simps)
     (simp add: status_matches_def regmap_read_def udelay_def split: gdscr_status.splits)

lemma poll_loop_step_ok:
  "0 < count \<Longrightarrow> status_matches e r status tr \<Longrightarrow>
   poll_loop e r status count tr = (0, tr @ [EvRead r])"
  by (subst poll_loop.simps)
     (simp add: status_matches_def regmap_read_def udelay_def split: gdscr_status.splits)

lemma poll_loop_timeout:
  "\<forall>j<n. \<not> status_matches e r status (tr @ poll_rounds r j) \<Longrightarrow>
   poll_loop e r status (int n) tr = (- ETIMEDOUT, tr @ poll_rounds r n)"
proof (induction n arbitrary: tr)
  case 0
  then show ?case by (simp add: poll_loop_nonpos)
next
  case (Suc n)
  from Suc.prems have first: "\<not> status_matches e r status tr"
    by (drule_tac x=0 in spec) simp
  have rest: "\<forall>j<n. \<not> status_matches e r status ((tr @ [EvRead r, EvDelay 1]) @ poll_rounds r j)"
  proof (intro allI impI)
    fix j assume "j < n"
    then have "\<not> status_matches e r status (tr @ poll_rounds r (Suc j))"
      using Suc.prems by simp
    then show "\<not> status_matches e r status ((tr @ [EvRead r, EvDelay 1]) @ poll_rounds r j)"
      by (simp add: poll_rounds_Suc)
  qed
  have "poll_loop e r status (int (Suc n)) tr
        = poll_loop e r status (int n) (tr @ [EvRead r, EvDelay 1])"
    using poll_loop_step_fail [OF _ first, of "int (Suc n)"] by simp
  also have "\<dots> = (- ETIMEDOUT, (tr @ [EvRead r, EvDelay 1]) @ poll_rounds r n)"
    by (rule Suc.IH [OF rest])
  finally show ?case by (simp add: poll_rounds_Suc)
qed

lemma poll_loop_success:
  "k < n \<Longrightarrow> \<forall>j<k. \<not> status_matches e r status (tr @ poll_rounds r j) \<Longrightarrow>
   status_matches e r status (tr @ poll_rounds r k) \<Longrightarrow>
   poll_loop e r status (int n) tr = (0, tr @ poll_rounds r k @ [EvRead r])"
proof (induction k arbitrary: tr n)
  case 0
  then show ?case using poll_loop_step_ok [of "int n" e r status tr] by simp
next
  case (Suc k)
  from Suc.prems(2) have first: "\<not> status_matches e r status tr"
    by (drule_tac x=0 in spec) simp
  obtain m where n: "n = Suc m" and km: "k < m"
    using Suc.prems(1) by (cases n) auto
  have rest: "\<forall>j<k. \<not> status_matches e r status ((tr @ [EvRead r, EvDelay 1]) @ poll_rounds r j)"
  proof (intro allI impI)
    fix j assume "j < k"
    then have "\<not> status_matches e r status (tr @ poll_rounds r (Suc j))"
      using Suc.prems(2) by simp
    then show "\<not> status_matches e r status ((tr @ [EvRead r, EvDelay 1]) @ poll_rounds r j)"
      by (simp add: poll_rounds_Suc)
  qed
  have hit: "status_matches e r status ((tr @ [EvRead r, EvDelay 1]) @ poll_rounds r k)"
    using Suc.prems(3) by (simp add: poll_rounds_Suc)
  have "poll_loop e r status (int n) tr
        = poll_loop e r status (int m) (tr @ [EvRead r, EvDelay 1])"
    using poll_loop_step_fail [OF _ first, of "int n"] n by simp
  also have "\<dots> = (0, (tr @ [EvRead r, EvDelay 1]) @ poll_rounds r k @ [EvRead r])"
    by (rule Suc.IH [OF km rest hit])
  finally show ?case by (simp add: poll_rounds_Suc)
qed

lemma poll_gdsc_status_loop:
  "poll_gdsc_status e sc status tr =
     poll_loop e (status_regmap sc) status (int (nat (sint (gds_timeout sc)))) tr"
proof (cases "0 \<le> sint (gds_timeout sc)")
  case True
  then show ?thesis by (simp add: poll_gdsc_status_def status_regmap_def)
next
  case False
  then show ?thesis
    by (simp add: poll_gdsc_status_def status_regmap_def poll_loop_nonpos)
qed

lemma poll_loop_cases:
  "(\<exists>k<n. poll_loop e r status (int n) tr = (0, tr @ poll_rounds r k @ [EvRead r]) \<and>
            status_matches e r status (tr @ poll_rounds r k) \<and>
            (\<forall>j<k. \<not> status_matches e r status (tr @ poll_rounds r j)))
   \<or> (poll_loop e r status (int n) tr = (- ETIMEDOUT, tr @ poll_rounds r n) \<and>
            (\<forall>j<n. \<not> status_matches e r status (tr @ poll_rounds r j)))"
proof (cases "\<exists>k<n. status_matches e r status (tr @ poll_rounds r k)")
  case True
  define P where "P = (\<lambda>k. k < n \<and> status_matches e r status (tr @ poll_rounds r k))"
  define k where "k = (LEAST k. P k)"
  from True have "\<exists>k. P k" by (simp add: P_def)
  then have "P k" unfolding k_def by (rule LeastI_ex)
  then have kn: "k < n" and hit: "status_matches e r status (tr @ poll_rounds r k)"
    by (simp_all add: P_def)
  have least: "\<forall>j<k. \<not> status_matches e r status (tr @ poll_rounds r j)"
  proof (intro allI impI)
    fix j assume jk: "j < k"
    then have "\<not> P j" unfolding k_def by (rule not_less_Least)
    moreover from jk kn have "j < n" by simp
    ultimately show "\<not> status_matches e r status (tr @ poll_rounds r j)"
      by (simp add: P_def)
  qed
  have "poll_loop e r status (int n) tr = (0, tr @ poll_rounds r k @ [EvRead r])"
    by (rule poll_loop_success [OF kn least hit])
  with kn hit least show ?thesis by (intro disjI1 exI [of _ k]) simp
next
  case False
  then have none: "\<forall>j<n. \<not> status_matches e r status (tr @ poll_rounds r j)" by simp
  have "poll_loop e r status (int n) tr = (- ETIMEDOUT, tr @ poll_rounds r n)"
    by (rule poll_loop_timeout [OF none])
  with none show ?thesis by (intro disjI2) simp
qed

text \<open>
  C7, as the code has it. The poll engine samples the status register (the
  hardware-status register when the domain has one, the primary register otherwise) masked
  with \<^verbatim>\<open>PWR_ON_MASK\<close>. Its budget is \<^verbatim>\<open>gds_timeout\<close> read as a signed 32-bit C
  \<^verbatim>\<open>int\<close> (line 99), and 0 when that is negative, that is for \<^verbatim>\<open>gds_timeout\<close> of
  \<open>2^31\<close> or more. It returns 0 at the first sample whose bit matches the expected
  polarity, after exactly one 1-microsecond delay per failed sample; it returns
  \<^verbatim>\<open>-ETIMEDOUT\<close> after budget failed samples, each followed by one delay, and at once,
  without any sample, when the budget is 0. Reads and delays are its only effects.
\<close>

theorem poll_gdsc_status_contract:
  "(\<exists>k<nat (sint (gds_timeout sc)).
       poll_gdsc_status e sc status tr
         = (0, tr @ poll_rounds (status_regmap sc) k @ [EvRead (status_regmap sc)]) \<and>
       status_matches e (status_regmap sc) status (tr @ poll_rounds (status_regmap sc) k) \<and>
       (\<forall>j<k. \<not> status_matches e (status_regmap sc) status
                    (tr @ poll_rounds (status_regmap sc) j)))
   \<or> (poll_gdsc_status e sc status tr
         = (- ETIMEDOUT, tr @ poll_rounds (status_regmap sc) (nat (sint (gds_timeout sc)))) \<and>
       (\<forall>j<nat (sint (gds_timeout sc)).
           \<not> status_matches e (status_regmap sc) status
                (tr @ poll_rounds (status_regmap sc) j)))"
  unfolding poll_gdsc_status_loop by (rule poll_loop_cases)

lemma length_poll_rounds: "length (poll_rounds r n) = 2 * n"
  by (induction n) (simp_all add: poll_rounds_Suc)

theorem poll_gdsc_status_contract_witness:
  "poll_gdsc_status (hw_on_after 4) gdsc_plain ENABLED []
     = (0, [EvRead 0, EvDelay 1, EvRead 0, EvDelay 1, EvRead 0])"
proof -
  have r: "status_regmap gdsc_plain = 0"
    by (simp add: status_regmap_def gdsc_plain_def)
  have n: "nat (sint (gds_timeout gdsc_plain)) = 100"
    by (simp add: gdsc_plain_def)
  have m: "status_matches (hw_on_after 4) 0 ENABLED ([] @ poll_rounds 0 j) = (2 \<le> j)" for j
    by (simp add: status_matches_def hw_on_after_def length_poll_rounds PWR_ON_MASK_def)
  from poll_gdsc_status_contract [of gdsc_plain "hw_on_after 4" ENABLED "[]"]
  consider k where "k < 100"
      "poll_gdsc_status (hw_on_after 4) gdsc_plain ENABLED [] = (0, [] @ poll_rounds 0 k @ [EvRead 0])"
      "2 \<le> k" "\<forall>j<k. \<not> 2 \<le> j"
    | "\<forall>j<100. \<not> (2::nat) \<le> j"
    unfolding r n m by blast
  then show ?thesis
  proof cases
    case 1
    from 1(4) have "\<not> 2 < k" by auto
    with 1(3) have "k = 2" by simp
    with 1(2) show ?thesis by (simp add: poll_rounds_def numeral_2_eq_2)
  next
    case 2
    then have "\<not> (2::nat) \<le> 2" by (drule_tac x=2 in spec) simp
    then show ?thesis by simp
  qed
qed

text \<open>
  A domain whose \<^verbatim>\<open>gds_timeout\<close> is \<open>0x80000000\<close> and whose status register already shows
  \<^verbatim>\<open>pwr_on\<close>: the loop counter of line 99 is negative, so the poll for the enabled state
  takes no sample and returns \<^verbatim>\<open>-ETIMEDOUT\<close>, although the first sample would match.
\<close>

theorem poll_gdsc_status_large_timeout:
  "status_matches (hw_const 0x80000000) (status_regmap (gdsc_plain\<lparr>gds_timeout := 0x80000000\<rparr>))
     ENABLED []
   \<and> unat (gds_timeout (gdsc_plain\<lparr>gds_timeout := 0x80000000\<rparr>)) = 2147483648
   \<and> poll_gdsc_status (hw_const 0x80000000) (gdsc_plain\<lparr>gds_timeout := 0x80000000\<rparr>) ENABLED []
       = (- ETIMEDOUT, [])"
proof -
  have neg: "sint (0x80000000 :: u32) \<le> 0" by simp
  show ?thesis
    using neg
    by (simp add: status_matches_def status_regmap_def hw_const_def gdsc_plain_def
          PWR_ON_MASK_def poll_gdsc_status_def poll_loop_nonpos)
qed

section \<open>Enable under hardware control\<close>

lemmas prim_defs =
  regmap_read_def regmap_write_def regmap_update_bits_def udelay_def clk_prepare_enable_def
  clk_disable_unprepare_def reset_control_assert_def reset_control_deassert_def
  regulator_lock_def regulator_unlock_def regulator_is_enabled_def gdsc_mb_def

text \<open>
  C1. With \<^verbatim>\<open>skip_disable_before_enable\<close> false, if the primary register reads with
  the \<^verbatim>\<open>hw_control\<close> bit (bit 1) set, \<^verbatim>\<open>gdsc_enable\<close> returns \<^verbatim>\<open>-EBUSY\<close>. All it
  did before is vote for the root clock (when \<^verbatim>\<open>root_en\<close> or \<^verbatim>\<open>force_root_en\<close>) and
  read the primary register once: no register is written, no reset line is touched.
\<close>

theorem gdsc_enable_busy:
  assumes "\<not> skip_disable_before_enable (drvdata rdev)"
    and "reg_value e (tr @ root_clk_on (drvdata rdev)) (regmap (drvdata rdev)) AND HW_CONTROL_MASK \<noteq> 0"
  shows "gdsc_enable e rdev tr =
           (- EBUSY,
            rdev\<lparr>drvdata := (if root_en (drvdata rdev) \<or> force_root_en (drvdata rdev)
                              then (drvdata rdev)\<lparr>is_root_clk_voted := True\<rparr>
                              else drvdata rdev)\<rparr>,
            tr @ root_clk_on (drvdata rdev) @ [EvRead (regmap (drvdata rdev))])"
proof (cases "root_en (drvdata rdev) \<or> force_root_en (drvdata rdev)")
  case True
  with assms show ?thesis
    by (simp add: gdsc_enable_def root_clk_on_def prim_defs Let_def)
next
  case False
  with assms show ?thesis
    by (simp add: gdsc_enable_def root_clk_on_def prim_defs Let_def)
qed

theorem gdsc_enable_busy_witness:
  "\<not> skip_disable_before_enable (drvdata \<lparr>rdev_supply = None, drvdata = gdsc_plain\<lparr>root_en := True, root_clk_idx := 0, domain_addr := Some 1, sw_reset := Some 2\<rparr>\<rparr>)
   \<and> gdsc_enable (hw_const 2) \<lparr>rdev_supply = None, drvdata = gdsc_plain\<lparr>root_en := True, root_clk_idx := 0, domain_addr := Some 1, sw_reset := Some 2\<rparr>\<rparr> []
       = (- EBUSY,
          \<lparr>rdev_supply = None, drvdata = gdsc_plain\<lparr>root_en := True, root_clk_idx := 0, domain_addr := Some 1, sw_reset := Some 2, is_root_clk_voted := True\<rparr>\<rparr>,
          [EvClkPrepareEnable 0, EvRead 0])"
  using gdsc_enable_busy [of "\<lparr>rdev_supply = None, drvdata = gdsc_plain\<lparr>root_en := True, root_clk_idx := 0, domain_addr := Some 1, sw_reset := Some 2\<rparr>\<rparr>" "hw_const 2" "[]"]
  by (simp add: gdsc_plain_def hw_const_def root_clk_on_def HW_CONTROL_MASK_def)

section \<open>Enable, disable and the enabled query\<close>

lemma fst_gdsc_enable_done [simp]: "fst (gdsc_enable_done rdev sc ret tr) = ret"
  by (simp add: gdsc_enable_done_def Let_def split_def)

lemma is_enabled_gdsc_enable_done:
  "gdsc_is_enabled (fst (snd (gdsc_enable_done rdev sc ret tr)))
     = (if toggle_logic sc then \<not> skip_disable_before_enable sc else \<not> resets_asserted sc)"
  by (simp add: gdsc_enable_done_def gdsc_is_enabled_def Let_def split_def)

lemma gdsc_enable_success_is_enabled:
  "\<not> skip_disable_before_enable (drvdata rdev) \<Longrightarrow>
   fst (gdsc_enable e rdev tr) = 0 \<longrightarrow> gdsc_is_enabled (fst (snd (gdsc_enable e rdev tr)))"
  by (simp add: gdsc_enable_def Let_def split_def is_enabled_gdsc_enable_done EBUSY_def
           split: option.split)

lemma fst_gdsc_disable_body_flags:
  "is_gdsc_enabled (fst (snd (gdsc_disable_body e sc tr))) = False"
  "toggle_logic (fst (snd (gdsc_disable_body e sc tr))) = toggle_logic sc"
  "\<not> toggle_logic sc \<Longrightarrow> resets_asserted (fst (snd (gdsc_disable_body e sc tr)))"
  by (simp_all add: gdsc_disable_body_def Let_def split_def)

lemma gdsc_disable_success_not_enabled:
  "fst (gdsc_disable e rdev tr) = 0 \<longrightarrow> \<not> gdsc_is_enabled (fst (snd (gdsc_disable e rdev tr)))"
  by (simp add: gdsc_disable_def gdsc_is_enabled_def Let_def split_def EIO_def
        fst_gdsc_disable_body_flags split: option.split)

text \<open>
  C2, as the code has it. On a domain without \<^verbatim>\<open>skip_disable_before_enable\<close>, when
  \<^verbatim>\<open>gdsc_enable\<close> returns 0 an immediately following \<^verbatim>\<open>gdsc_is_enabled\<close> is true. On
  every domain, when \<^verbatim>\<open>gdsc_disable\<close> returns 0 an immediately following
  \<^verbatim>\<open>gdsc_is_enabled\<close> is false. On a domain with \<^verbatim>\<open>skip_disable_before_enable\<close>,
  \<^verbatim>\<open>gdsc_enable\<close> returns 0 and changes nothing, so \<^verbatim>\<open>gdsc_is_enabled\<close> answers as
  before the call.
\<close>

theorem gdsc_enable_disable_is_enabled:
  "(\<not> skip_disable_before_enable (drvdata rdev) \<longrightarrow> fst (gdsc_enable e rdev tr) = 0 \<longrightarrow>
      gdsc_is_enabled (fst (snd (gdsc_enable e rdev tr))))
   \<and> (fst (gdsc_disable e rdev tr) = 0 \<longrightarrow>
      \<not> gdsc_is_enabled (fst (snd (gdsc_disable e rdev tr))))
   \<and> (skip_disable_before_enable (drvdata rdev) \<longrightarrow> gdsc_enable e rdev tr = (0, rdev, tr))"
proof (intro conjI impI)
  assume "\<not> skip_disable_before_enable (drvdata rdev)" "fst (gdsc_enable e rdev tr) = 0"
  then show "gdsc_is_enabled (fst (snd (gdsc_enable e rdev tr)))"
    using gdsc_enable_success_is_enabled by blast
next
  assume "fst (gdsc_disable e rdev tr) = 0"
  then show "\<not> gdsc_is_enabled (fst (snd (gdsc_disable e rdev tr)))"
    using gdsc_disable_success_not_enabled by blast
next
  assume "skip_disable_before_enable (drvdata rdev)"
  then show "gdsc_enable e rdev tr = (0, rdev, tr)"
    by (simp add: gdsc_enable_def)
qed

lemmas gdsc_defs =
  gdsc_enable_def gdsc_enable_power_up_def gdsc_enable_sw_reset_def gdsc_enable_domain_addr_def
  gdsc_enable_collapse_def gdsc_enable_retain_def gdsc_enable_done_def gdsc_disable_def
  gdsc_disable_body_def gdsc_disable_collapse_def gdsc_disable_clamp_def gdsc_set_mode_def
  gdsc_set_mode_body_def gdsc_is_enabled_def poll_gdsc_status_def

lemmas const_defs =
  PWR_ON_MASK_def RETAIN_FF_ENABLE_MASK_def HW_CONTROL_MASK_def SW_COLLAPSE_MASK_def
  GMEM_CLAMP_IO_MASK_def GMEM_RESET_MASK_def BCR_BLK_ARES_BIT_def TIMEOUT_US_def BIT_def
  EIO_def EBUSY_def EINVAL_def ETIMEDOUT_def REGULATOR_MODE_FAST_def REGULATOR_MODE_NORMAL_def

theorem gdsc_enable_disable_is_enabled_witness:
  "fst (gdsc_enable (hw_const 0x80000000) \<lparr>rdev_supply = None, drvdata = gdsc_plain\<rparr> []) = 0
   \<and> gdsc_is_enabled (fst (snd (gdsc_enable (hw_const 0x80000000) \<lparr>rdev_supply = None, drvdata = gdsc_plain\<rparr> [])))
   \<and> gdsc_is_enabled \<lparr>rdev_supply = None, drvdata = gdsc_plain\<lparr>is_gdsc_enabled := True\<rparr>\<rparr>
   \<and> fst (gdsc_disable (hw_const 0) \<lparr>rdev_supply = None, drvdata = gdsc_plain\<lparr>is_gdsc_enabled := True\<rparr>\<rparr> []) = 0
   \<and> \<not> gdsc_is_enabled (fst (snd (gdsc_disable (hw_const 0) \<lparr>rdev_supply = None, drvdata = gdsc_plain\<lparr>is_gdsc_enabled := True\<rparr>\<rparr> [])))
   \<and> gdsc_enable (hw_const 0) \<lparr>rdev_supply = None, drvdata = gdsc_plain\<lparr>skip_disable_before_enable := True\<rparr>\<rparr> []
       = (0, \<lparr>rdev_supply = None, drvdata = gdsc_plain\<lparr>skip_disable_before_enable := True\<rparr>\<rparr>, [])"
proof -
  have en: "fst (gdsc_enable (hw_const 0x80000000) \<lparr>rdev_supply = None, drvdata = gdsc_plain\<rparr> []) = 0"
    by (simp add: gdsc_defs prim_defs const_defs gdsc_plain_def hw_const_def Let_def poll_loop.simps)
  have dis: "fst (gdsc_disable (hw_const 0) \<lparr>rdev_supply = None, drvdata = gdsc_plain\<lparr>is_gdsc_enabled := True\<rparr>\<rparr> []) = 0"
    by (simp add: gdsc_defs prim_defs const_defs gdsc_plain_def hw_const_def Let_def poll_loop.simps)
  have was: "gdsc_is_enabled \<lparr>rdev_supply = None, drvdata = gdsc_plain\<lparr>is_gdsc_enabled := True\<rparr>\<rparr>"
    by (simp add: gdsc_is_enabled_def gdsc_plain_def)
  have skip: "skip_disable_before_enable (drvdata \<lparr>rdev_supply = None, drvdata = gdsc_plain\<lparr>skip_disable_before_enable := True\<rparr>\<rparr>)"
    by simp
  have noskip: "\<not> skip_disable_before_enable (drvdata \<lparr>rdev_supply = None, drvdata = gdsc_plain\<rparr>)"
    by (simp add: gdsc_plain_def)
  show ?thesis
    using en dis was noskip
      gdsc_enable_disable_is_enabled [of "\<lparr>rdev_supply = None, drvdata = gdsc_plain\<rparr>" "hw_const 0x80000000" "[]"]
      gdsc_enable_disable_is_enabled [of "\<lparr>rdev_supply = None, drvdata = gdsc_plain\<lparr>is_gdsc_enabled := True\<rparr>\<rparr>" "hw_const 0" "[]"]
      gdsc_enable_disable_is_enabled [of "\<lparr>rdev_supply = None, drvdata = gdsc_plain\<lparr>skip_disable_before_enable := True\<rparr>\<rparr>" "hw_const 0" "[]"]
    by (simp only: skip simp_thms)
qed

text \<open>
  A register-toggled domain with \<^verbatim>\<open>skip_disable_before_enable\<close>: \<^verbatim>\<open>gdsc_enable\<close>
  succeeds and \<^verbatim>\<open>gdsc_is_enabled\<close> still answers false (line 169 of the source).
\<close>

theorem gdsc_enable_skip_not_enabled:
  "fst (gdsc_enable (hw_const 0x80000000)
          \<lparr>rdev_supply = None, drvdata = gdsc_plain\<lparr>skip_disable_before_enable := True\<rparr>\<rparr> []) = 0
   \<and> \<not> gdsc_is_enabled (fst (snd (gdsc_enable (hw_const 0x80000000)
          \<lparr>rdev_supply = None, drvdata = gdsc_plain\<lparr>skip_disable_before_enable := True\<rparr>\<rparr> [])))"
  by (simp add: gdsc_enable_def gdsc_is_enabled_def gdsc_plain_def)

section \<open>The parent supply and its lock\<close>

lemma reg_writes_append [simp]: "reg_writes (a @ b) = reg_writes a @ reg_writes b"
  by (simp add: reg_writes_def)

lemma reg_writes_Nil [simp]: "reg_writes [] = []"
  by (simp add: reg_writes_def)

lemma reg_writes_Cons [simp]:
  "reg_writes (ev # tr) = (if is_reg_write ev then ev # reg_writes tr else reg_writes tr)"
  by (simp add: reg_writes_def)

lemma reg_writes_poll_rounds [simp]: "reg_writes (poll_rounds r n) = []"
  by (induction n) (simp_all add: poll_rounds_Suc)

lemma locks_held_append [simp]: "locks_held q (a @ b) = locks_held q a + locks_held q b"
  by (simp add: locks_held_def)

lemma locks_held_Nil [simp]: "locks_held q [] = 0"
  by (simp add: locks_held_def)

lemma locks_held_Cons [simp]:
  "locks_held q (ev # tr)
     = (if ev = EvLock q then 1 else 0) - (if ev = EvUnlock q then 1 else 0) + locks_held q tr"
  by (simp add: locks_held_def)

lemma locks_held_poll_rounds [simp]: "locks_held q (poll_rounds r n) = 0"
  by (induction n) (simp_all add: poll_rounds_Suc)

lemma poll_gdsc_status_shape:
  obtains k where "poll_gdsc_status e sc status tr
                     = (0, tr @ poll_rounds (status_regmap sc) k @ [EvRead (status_regmap sc)])"
  | "poll_gdsc_status e sc status tr
       = (- ETIMEDOUT, tr @ poll_rounds (status_regmap sc) (nat (sint (gds_timeout sc))))"
  using poll_loop_cases [of "nat (sint (gds_timeout sc))" e "status_regmap sc" status tr]
  unfolding poll_gdsc_status_loop by blast

lemma poll_gdsc_status_gained:
  "\<exists>evs. snd (poll_gdsc_status e sc status tr) = tr @ evs \<and> reg_writes evs = [] \<and>
         (\<forall>q. locks_held q evs = 0)"
  by (rule poll_gdsc_status_shape [of e sc status tr]) simp_all

lemma locks_held_poll [simp]:
  "locks_held q (snd (poll_gdsc_status e sc status tr)) = locks_held q tr"
  using poll_gdsc_status_gained [of e sc status tr] by auto

lemma deassert_resets_trace: "deassert_resets is tr = tr @ map EvResetDeassert is"
  by (induction "is" arbitrary: tr) (simp_all add: reset_control_deassert_def)

lemma assert_resets_trace: "assert_resets is tr = tr @ map EvResetAssert is"
  by (induction "is" arbitrary: tr) (simp_all add: reset_control_assert_def)

lemma locks_held_map_deassert [simp]:
  "locks_held q (map (EvResetDeassert \<circ> f) xs) = 0"
  "locks_held q (map EvResetDeassert ys) = 0"
proof -
  show "locks_held q (map (EvResetDeassert \<circ> f) xs) = 0" by (induction xs) simp_all
  show "locks_held q (map EvResetDeassert ys) = 0" by (induction ys) simp_all
qed

lemma locks_held_map_assert [simp]:
  "locks_held q (map (EvResetAssert \<circ> f) xs) = 0"
  "locks_held q (map EvResetAssert ys) = 0"
proof -
  show "locks_held q (map (EvResetAssert \<circ> f) xs) = 0" by (induction xs) simp_all
  show "locks_held q (map EvResetAssert ys) = 0" by (induction ys) simp_all
qed

lemma locks_held_sw_reset [simp]:
  "locks_held q (snd (gdsc_enable_sw_reset e sc v tr)) = locks_held q tr"
  by (simp add: gdsc_enable_sw_reset_def prim_defs Let_def split_def split: option.split)

lemma locks_held_domain_addr [simp]:
  "locks_held q (snd (gdsc_enable_domain_addr e sc v tr)) = locks_held q tr"
  by (simp add: gdsc_enable_domain_addr_def prim_defs Let_def split_def split: option.split)

lemma locks_held_enable_collapse [simp]:
  "locks_held q (snd (gdsc_enable_collapse e sc v tr)) = locks_held q tr"
  by (simp add: gdsc_enable_collapse_def prim_defs Let_def split_def split: option.split)

lemma locks_held_power_up [simp]:
  "locks_held q (snd (gdsc_enable_power_up e sc v tr)) = locks_held q tr"
  by (simp add: gdsc_enable_power_up_def prim_defs Let_def split_def)

lemma locks_held_retain [simp]:
  "locks_held q (gdsc_enable_retain sc v tr) = locks_held q tr"
  by (simp add: gdsc_enable_retain_def prim_defs)

lemma locks_held_enable_done [simp]:
  "locks_held q (snd (snd (gdsc_enable_done rdev sc ret tr))) = locks_held q tr"
  by (simp add: gdsc_enable_done_def prim_defs Let_def split_def)

lemma locks_held_gdsc_enable:
  "locks_held q (snd (snd (gdsc_enable e rdev tr))) = locks_held q tr"
  by (simp add: gdsc_enable_def prim_defs Let_def split_def deassert_resets_trace
           split: option.split)

lemma locks_held_disable_collapse [simp]:
  "locks_held q (gdsc_disable_collapse e sc tr) = locks_held q tr"
  by (simp add: gdsc_disable_collapse_def prim_defs Let_def split_def split: option.split)

lemma locks_held_disable_clamp [simp]:
  "locks_held q (gdsc_disable_clamp e sc tr) = locks_held q tr"
  by (simp add: gdsc_disable_clamp_def prim_defs Let_def split_def split: option.split)

lemma locks_held_disable_body [simp]:
  "locks_held q (snd (snd (gdsc_disable_body e sc tr))) = locks_held q tr"
  by (simp add: gdsc_disable_body_def prim_defs Let_def split_def assert_resets_trace)

lemma locks_held_gdsc_disable:
  "locks_held q (snd (snd (gdsc_disable e rdev tr))) = locks_held q tr"
  by (simp add: gdsc_disable_def prim_defs Let_def split_def split: option.split)

lemma locks_held_set_mode_body [simp]:
  "locks_held q (snd (snd (gdsc_set_mode_body e sc mode tr))) = locks_held q tr"
  by (simp add: gdsc_set_mode_body_def prim_defs Let_def split_def)

lemma locks_held_gdsc_set_mode:
  "locks_held q (snd (snd (gdsc_set_mode e rdev mode tr))) = locks_held q tr"
  by (simp add: gdsc_set_mode_def prim_defs Let_def split_def split: option.split)

text \<open>
  C6. On a domain with a parent supply that reports 0 (not enabled), \<^verbatim>\<open>gdsc_disable\<close> and
  \<^verbatim>\<open>gdsc_set_mode\<close> return \<^verbatim>\<open>-EIO\<close>; all they did is lock the parent, query it and
  unlock it, so no register of the child is read or written and the driver state is
  unchanged. For every input, \<^verbatim>\<open>gdsc_enable\<close>, \<^verbatim>\<open>gdsc_disable\<close> and
  \<^verbatim>\<open>gdsc_set_mode\<close> return with as many unlocks as locks of any parent: none returns
  with the parent lock held.
\<close>

theorem parent_disabled_invalid_state:
  "(rdev_supply rdev = Some p \<and> supply_enabled e (tr @ [EvLock p]) p = 0 \<longrightarrow>
      gdsc_disable e rdev tr = (- EIO, rdev, tr @ [EvLock p, EvIsEnabled p, EvUnlock p]) \<and>
      gdsc_set_mode e rdev mode tr = (- EIO, rdev, tr @ [EvLock p, EvIsEnabled p, EvUnlock p]))
   \<and> locks_held q (snd (snd (gdsc_enable e rdev tr))) = locks_held q tr
   \<and> locks_held q (snd (snd (gdsc_disable e rdev tr))) = locks_held q tr
   \<and> locks_held q (snd (snd (gdsc_set_mode e rdev mode tr))) = locks_held q tr"
proof (intro conjI impI)
  assume a: "rdev_supply rdev = Some p \<and> supply_enabled e (tr @ [EvLock p]) p = 0"
  then show "gdsc_disable e rdev tr = (- EIO, rdev, tr @ [EvLock p, EvIsEnabled p, EvUnlock p])"
    by (simp add: gdsc_disable_def prim_defs Let_def)
  from a show "gdsc_set_mode e rdev mode tr = (- EIO, rdev, tr @ [EvLock p, EvIsEnabled p, EvUnlock p])"
    by (simp add: gdsc_set_mode_def prim_defs Let_def)
qed (rule locks_held_gdsc_enable locks_held_gdsc_disable locks_held_gdsc_set_mode)+

theorem parent_disabled_invalid_state_witness:
  "gdsc_disable (hw_const 0\<lparr>supply_enabled := \<lambda>tr p. 0\<rparr>)
       \<lparr>rdev_supply = Some 7, drvdata = gdsc_plain\<lparr>is_gdsc_enabled := True\<rparr>\<rparr> []
     = (- EIO, \<lparr>rdev_supply = Some 7, drvdata = gdsc_plain\<lparr>is_gdsc_enabled := True\<rparr>\<rparr>,
        [EvLock 7, EvIsEnabled 7, EvUnlock 7])
   \<and> gdsc_set_mode (hw_const 0\<lparr>supply_enabled := \<lambda>tr p. 0\<rparr>)
       \<lparr>rdev_supply = Some 7, drvdata = gdsc_plain\<lparr>is_gdsc_enabled := True\<rparr>\<rparr> REGULATOR_MODE_FAST []
     = (- EIO, \<lparr>rdev_supply = Some 7, drvdata = gdsc_plain\<lparr>is_gdsc_enabled := True\<rparr>\<rparr>,
        [EvLock 7, EvIsEnabled 7, EvUnlock 7])
   \<and> locks_held 7 [EvLock 7, EvIsEnabled 7, EvUnlock 7] = 0"
  using parent_disabled_invalid_state
    [of "\<lparr>rdev_supply = Some 7, drvdata = gdsc_plain\<lparr>is_gdsc_enabled := True\<rparr>\<rparr>" 7
        "hw_const 0\<lparr>supply_enabled := \<lambda>tr p. 0\<rparr>" "[]" REGULATOR_MODE_FAST 7]
  by (simp add: hw_const_def)

section \<open>Mode switch\<close>

lemma bit_HW_CONTROL_MASK: "bit HW_CONTROL_MASK i \<longleftrightarrow> i = 1"
  unfolding HW_CONTROL_MASK_def by (simp only: bit_2_iff possible_bit_word) simp

lemma fst_gdsc_set_mode_body_ok:
  "fst (gdsc_set_mode_body e sc mode tr) = 0 \<Longrightarrow>
   mode = REGULATOR_MODE_FAST \<or> mode = REGULATOR_MODE_NORMAL"
  by (simp add: gdsc_set_mode_body_def Let_def split_def EINVAL_def split: if_splits)

lemma gdsc_set_mode_body_trace:
  assumes "mode = REGULATOR_MODE_FAST \<or> mode = REGULATOR_MODE_NORMAL"
  shows "\<exists>post. snd (snd (gdsc_set_mode_body e sc mode tr))
            = tr @ [EvRead (regmap sc),
                    EvWrite (regmap sc)
                      (if mode = REGULATOR_MODE_FAST
                       then reg_value e tr (regmap sc) OR HW_CONTROL_MASK
                       else reg_value e tr (regmap sc) AND NOT HW_CONTROL_MASK)] @ post
          \<and> reg_writes post = []"
proof (cases "mode = REGULATOR_MODE_FAST")
  case True
  then show ?thesis
    by (simp add: gdsc_set_mode_body_def prim_defs Let_def split_def)
next
  case False
  with assms have n: "mode = REGULATOR_MODE_NORMAL" by simp
  obtain evs where evs: "\<And>tr0. snd (poll_gdsc_status e sc ENABLED tr0) = tr0 @ evs tr0 \<and> reg_writes (evs tr0) = []"
    using poll_gdsc_status_gained [of e sc ENABLED] by metis
  show ?thesis
    using False n evs
    by (simp add: gdsc_set_mode_body_def prim_defs Let_def split_def)
qed

lemma reg_writes_parent_check [simp]: "reg_writes (parent_check rdev) = []"
  by (simp add: parent_check_def split: option.split)

lemma gdsc_set_mode_via_body:
  assumes "fst (gdsc_set_mode e rdev mode tr) = 0"
  shows "fst (gdsc_set_mode_body e (drvdata rdev) mode (tr @ parent_check rdev)) = 0
         \<and> (\<exists>tl. snd (snd (gdsc_set_mode e rdev mode tr))
                    = snd (snd (gdsc_set_mode_body e (drvdata rdev) mode (tr @ parent_check rdev))) @ tl
                  \<and> reg_writes tl = [])"
proof (cases "rdev_supply rdev")
  case None
  with assms show ?thesis
    by (simp add: gdsc_set_mode_def parent_check_def Let_def split_def)
next
  case (Some p)
  with assms have pos: "0 < supply_enabled e (tr @ [EvLock p]) p"
    by (simp add: gdsc_set_mode_def prim_defs Let_def split_def EIO_def split: if_splits)
  with assms Some show ?thesis
    by (simp add: gdsc_set_mode_def parent_check_def prim_defs Let_def split_def)
qed

text \<open>
  C10. When \<^verbatim>\<open>gdsc_set_mode\<close> returns 0, the mode was \<^verbatim>\<open>REGULATOR_MODE_FAST\<close> or
  \<^verbatim>\<open>REGULATOR_MODE_NORMAL\<close>, and the call made exactly one register write: to the primary
  register, right after reading it. The value written agrees with the value just read on
  every bit except bit 1 (\<^verbatim>\<open>hw_control\<close>), which is set for the fast mode and clear for the
  normal mode.
\<close>

theorem gdsc_set_mode_single_write:
  assumes "fst (gdsc_set_mode e rdev mode tr) = 0"
  shows "\<exists>w post.
           snd (snd (gdsc_set_mode e rdev mode tr))
             = tr @ parent_check rdev
                  @ [EvRead (regmap (drvdata rdev)), EvWrite (regmap (drvdata rdev)) w] @ post
         \<and> reg_writes (parent_check rdev) = [] \<and> reg_writes post = []
         \<and> (\<forall>i. i \<noteq> 1 \<longrightarrow>
               bit w i = bit (reg_value e (tr @ parent_check rdev) (regmap (drvdata rdev))) i)
         \<and> (bit w 1 \<longleftrightarrow> mode = REGULATOR_MODE_FAST)
         \<and> (mode = REGULATOR_MODE_FAST \<or> mode = REGULATOR_MODE_NORMAL)"
proof -
  define sc where "sc = drvdata rdev"
  define tr0 where "tr0 = tr @ parent_check rdev"
  define v where "v = reg_value e tr0 (regmap sc)"
  define w where "w = (if mode = REGULATOR_MODE_FAST then v OR HW_CONTROL_MASK
                       else v AND NOT HW_CONTROL_MASK)"
  from gdsc_set_mode_via_body [OF assms]
  obtain tl where ok: "fst (gdsc_set_mode_body e sc mode tr0) = 0"
    and tl: "snd (snd (gdsc_set_mode e rdev mode tr)) = snd (snd (gdsc_set_mode_body e sc mode tr0)) @ tl"
            "reg_writes tl = []"
    unfolding sc_def tr0_def by blast
  from ok have mode: "mode = REGULATOR_MODE_FAST \<or> mode = REGULATOR_MODE_NORMAL"
    by (rule fst_gdsc_set_mode_body_ok)
  from gdsc_set_mode_body_trace [OF mode, of e sc tr0]
  obtain post where post:
    "snd (snd (gdsc_set_mode_body e sc mode tr0)) = tr0 @ [EvRead (regmap sc), EvWrite (regmap sc) w] @ post"
    "reg_writes post = []"
    unfolding w_def v_def by blast
  have neq: "REGULATOR_MODE_NORMAL \<noteq> REGULATOR_MODE_FAST"
    by (simp add: REGULATOR_MODE_NORMAL_def REGULATOR_MODE_FAST_def)
  have bits: "\<forall>i. i \<noteq> 1 \<longrightarrow> bit w i = bit v i"
    by (auto simp add: w_def bit_or_iff bit_and_iff bit_not_iff bit_HW_CONTROL_MASK
          dest: bit_imp_le_length)
  have bit1: "bit w 1 \<longleftrightarrow> mode = REGULATOR_MODE_FAST"
    by (simp add: w_def bit_or_iff bit_and_iff bit_not_iff bit_HW_CONTROL_MASK)
  have "snd (snd (gdsc_set_mode e rdev mode tr))
          = tr @ parent_check rdev @ [EvRead (regmap (drvdata rdev)), EvWrite (regmap (drvdata rdev)) w]
               @ (post @ tl)"
    using tl(1) post(1) by (simp add: tr0_def sc_def)
  moreover have "reg_writes (post @ tl) = []"
    using tl(2) post(2) by simp
  ultimately show ?thesis
    using bits bit1 mode unfolding v_def tr0_def sc_def
    by (intro exI [of _ w] exI [of _ "post @ tl"]) simp
qed

theorem gdsc_set_mode_single_write_witness:
  "fst (gdsc_set_mode (hw_const 0x80001001)
          \<lparr>rdev_supply = Some 7, drvdata = gdsc_plain\<lparr>is_gdsc_enabled := True\<rparr>\<rparr>
          REGULATOR_MODE_FAST []) = 0
   \<and> snd (snd (gdsc_set_mode (hw_const 0x80001001)
          \<lparr>rdev_supply = Some 7, drvdata = gdsc_plain\<lparr>is_gdsc_enabled := True\<rparr>\<rparr>
          REGULATOR_MODE_FAST []))
       = [EvLock 7, EvIsEnabled 7, EvRead 0, EvWrite 0 0x80001003, EvRead 0, EvDelay 1, EvUnlock 7]
   \<and> fst (gdsc_set_mode (hw_const 0x80001003)
          \<lparr>rdev_supply = Some 7, drvdata = gdsc_plain\<lparr>is_gdsc_enabled := True\<rparr>\<rparr>
          REGULATOR_MODE_NORMAL []) = 0
   \<and> snd (snd (gdsc_set_mode (hw_const 0x80001003)
          \<lparr>rdev_supply = Some 7, drvdata = gdsc_plain\<lparr>is_gdsc_enabled := True\<rparr>\<rparr>
          REGULATOR_MODE_NORMAL []))
       = [EvLock 7, EvIsEnabled 7, EvRead 0, EvWrite 0 0x80001001, EvRead 0, EvDelay 1, EvRead 0,
          EvUnlock 7]"
proof -
  have a: "fst (gdsc_set_mode (hw_const 0x80001001)
          \<lparr>rdev_supply = Some 7, drvdata = gdsc_plain\<lparr>is_gdsc_enabled := True\<rparr>\<rparr>
          REGULATOR_MODE_FAST []) = 0"
    by (simp add: gdsc_defs prim_defs const_defs gdsc_plain_def hw_const_def Let_def)
  have b: "fst (gdsc_set_mode (hw_const 0x80001003)
          \<lparr>rdev_supply = Some 7, drvdata = gdsc_plain\<lparr>is_gdsc_enabled := True\<rparr>\<rparr>
          REGULATOR_MODE_NORMAL []) = 0"
    by (simp add: gdsc_defs prim_defs const_defs gdsc_plain_def hw_const_def Let_def
          poll_loop.simps)
  show ?thesis
    using gdsc_set_mode_single_write [OF a] gdsc_set_mode_single_write [OF b] a b
    by (simp add: gdsc_defs prim_defs const_defs gdsc_plain_def hw_const_def Let_def
          poll_loop.simps)
qed

section \<open>Reset-controlled domains\<close>

lemma gdsc_disable_via_body:
  assumes "parent_check_passes e rdev tr"
  shows "gdsc_disable e rdev tr =
           (fst (gdsc_disable_body e (drvdata rdev) (tr @ parent_check rdev)),
            rdev\<lparr>drvdata := fst (snd (gdsc_disable_body e (drvdata rdev) (tr @ parent_check rdev)))\<rparr>,
            snd (snd (gdsc_disable_body e (drvdata rdev) (tr @ parent_check rdev))) @ parent_unlock rdev)"
proof (cases "rdev_supply rdev")
  case None
  then show ?thesis
    by (simp add: gdsc_disable_def parent_check_def parent_unlock_def Let_def split_def)
next
  case (Some p)
  with assms have "0 < supply_enabled e (tr @ [EvLock p]) p"
    by (simp add: parent_check_passes_def)
  with Some show ?thesis
    by (simp add: gdsc_disable_def parent_check_def parent_unlock_def prim_defs Let_def split_def)
qed

lemma gdsc_enable_resets:
  assumes "\<not> toggle_logic (drvdata rdev)" "\<not> skip_disable_before_enable (drvdata rdev)"
    and "reg_value e (tr @ root_clk_on (drvdata rdev)) (regmap (drvdata rdev)) AND HW_CONTROL_MASK = 0"
  shows "fst (gdsc_enable e rdev tr) = 0"
    and "\<not> resets_asserted (drvdata (fst (snd (gdsc_enable e rdev tr))))"
    and "snd (snd (gdsc_enable e rdev tr))
           = tr @ root_clk_on (drvdata rdev) @ [EvRead (regmap (drvdata rdev))]
                @ map EvResetDeassert (map int [0 ..< nat (reset_count (drvdata rdev))])
                @ [EvDelay 1, EvDelay 1] @ force_clk_off (drvdata rdev)"
  using assms
  by (cases "root_en (drvdata rdev) \<or> force_root_en (drvdata rdev)";
      simp add: gdsc_enable_def gdsc_enable_done_def root_clk_on_def force_clk_off_def prim_defs
        Let_def split_def deassert_resets_trace)+

lemma gdsc_disable_resets:
  assumes "\<not> toggle_logic (drvdata rdev)" "parent_check_passes e rdev tr"
  shows "fst (gdsc_disable e rdev tr) = 0"
    and "resets_asserted (drvdata (fst (snd (gdsc_disable e rdev tr))))"
    and "snd (snd (gdsc_disable e rdev tr))
           = tr @ parent_check rdev @ force_clk_on (drvdata rdev) @ [EvDelay 1]
                @ map EvResetAssert (rev (map int [0 ..< nat (reset_count (drvdata rdev))]))
                @ disable_clk_off (drvdata rdev) @ parent_unlock rdev"
  using assms(1)
  by (simp_all add: gdsc_disable_via_body [OF assms(2)] gdsc_disable_body_def force_clk_on_def
        disable_clk_off_def prim_defs Let_def split_def assert_resets_trace)

text \<open>
  C8, as the code has it. On a reset-controlled domain (\<^verbatim>\<open>toggle_logic\<close> false) with
  \<open>n\<close> reset lines: when the domain is not \<^verbatim>\<open>skip_disable_before_enable\<close> and the primary
  register reads with \<^verbatim>\<open>hw_control\<close> clear, \<^verbatim>\<open>gdsc_enable\<close> returns 0, de-asserts line 0
  first and line \<open>n - 1\<close> last, and marks the resets not asserted; when the parent check
  passes, \<^verbatim>\<open>gdsc_disable\<close> returns 0, asserts line \<open>n - 1\<close> first and line 0 last, and
  marks the resets asserted.
\<close>

theorem gdsc_reset_lines_order:
  "(\<not> toggle_logic (drvdata rdev) \<and> \<not> skip_disable_before_enable (drvdata rdev) \<and>
    reg_value e (tr @ root_clk_on (drvdata rdev)) (regmap (drvdata rdev)) AND HW_CONTROL_MASK = 0 \<longrightarrow>
      fst (gdsc_enable e rdev tr) = 0 \<and>
      \<not> resets_asserted (drvdata (fst (snd (gdsc_enable e rdev tr)))) \<and>
      snd (snd (gdsc_enable e rdev tr))
        = tr @ root_clk_on (drvdata rdev) @ [EvRead (regmap (drvdata rdev))]
             @ map EvResetDeassert (map int [0 ..< nat (reset_count (drvdata rdev))])
             @ [EvDelay 1, EvDelay 1] @ force_clk_off (drvdata rdev))
   \<and> (\<not> toggle_logic (drvdata rdev) \<and> parent_check_passes e rdev tr \<longrightarrow>
      fst (gdsc_disable e rdev tr) = 0 \<and>
      resets_asserted (drvdata (fst (snd (gdsc_disable e rdev tr)))) \<and>
      snd (snd (gdsc_disable e rdev tr))
        = tr @ parent_check rdev @ force_clk_on (drvdata rdev) @ [EvDelay 1]
             @ map EvResetAssert (rev (map int [0 ..< nat (reset_count (drvdata rdev))]))
             @ disable_clk_off (drvdata rdev) @ parent_unlock rdev)"
  using gdsc_enable_resets [of rdev e tr] gdsc_disable_resets [of rdev e tr] by blast

theorem gdsc_reset_lines_order_witness:
  "gdsc_enable (hw_const 0)
      \<lparr>rdev_supply = None,
       drvdata = gdsc_plain\<lparr>toggle_logic := False, reset_count := 2, resets_asserted := True\<rparr>\<rparr> []
     = (0,
        \<lparr>rdev_supply = None,
         drvdata = gdsc_plain\<lparr>toggle_logic := False, reset_count := 2, resets_asserted := False,
                             is_gdsc_enabled := True\<rparr>\<rparr>,
        [EvRead 0, EvResetDeassert 0, EvResetDeassert 1, EvDelay 1, EvDelay 1])
   \<and> gdsc_disable (hw_const 0)
      \<lparr>rdev_supply = None,
       drvdata = gdsc_plain\<lparr>toggle_logic := False, reset_count := 2, is_gdsc_enabled := True\<rparr>\<rparr> []
     = (0,
        \<lparr>rdev_supply = None,
         drvdata = gdsc_plain\<lparr>toggle_logic := False, reset_count := 2, resets_asserted := True,
                             is_gdsc_enabled := False\<rparr>\<rparr>,
        [EvDelay 1, EvResetAssert 1, EvResetAssert 0])"
proof -
  have two: "[0..<2] = [0, 1::nat]" by (simp add: upt_rec numeral_2_eq_2)
  show ?thesis
    using gdsc_reset_lines_order
        [of "\<lparr>rdev_supply = None,
             drvdata = gdsc_plain\<lparr>toggle_logic := False, reset_count := 2, resets_asserted := True\<rparr>\<rparr>"
            "hw_const 0" "[]"]
      gdsc_reset_lines_order
        [of "\<lparr>rdev_supply = None,
             drvdata = gdsc_plain\<lparr>toggle_logic := False, reset_count := 2, is_gdsc_enabled := True\<rparr>\<rparr>"
            "hw_const 0" "[]"]
    by (simp add: gdsc_defs prim_defs const_defs gdsc_plain_def hw_const_def Let_def two
          root_clk_on_def force_clk_off_def force_clk_on_def disable_clk_off_def
          parent_check_passes_def parent_check_def parent_unlock_def)
qed

text \<open>
  A reset-controlled domain with two reset lines whose primary register reads with
  \<^verbatim>\<open>hw_control\<close> set: \<^verbatim>\<open>gdsc_enable\<close> returns \<^verbatim>\<open>-EBUSY\<close> after one read; no reset
  line is de-asserted and the resets stay marked asserted (lines 189-194 come before the
  choice between the two families).
\<close>

theorem gdsc_enable_resets_busy:
  "\<not> toggle_logic (gdsc_plain\<lparr>toggle_logic := False, reset_count := 2, resets_asserted := True\<rparr>)
   \<and> gdsc_enable (hw_const 2)
      \<lparr>rdev_supply = None,
       drvdata = gdsc_plain\<lparr>toggle_logic := False, reset_count := 2, resets_asserted := True\<rparr>\<rparr> []
     = (- EBUSY,
        \<lparr>rdev_supply = None,
         drvdata = gdsc_plain\<lparr>toggle_logic := False, reset_count := 2, resets_asserted := True\<rparr>\<rparr>,
        [EvRead 0])"
  by (simp add: gdsc_defs prim_defs const_defs gdsc_plain_def hw_const_def Let_def)

section \<open>Timeouts\<close>

lemma poll_voted_irrelevant [simp]:
  "poll_gdsc_status e (sc\<lparr>is_root_clk_voted := b\<rparr>) = poll_gdsc_status e sc"
  by (simp add: fun_eq_iff poll_gdsc_status_def split: option.split)

lemma status_regmap_voted [simp]:
  "status_regmap (sc\<lparr>is_root_clk_voted := b\<rparr>) = status_regmap sc"
  by (simp add: status_regmap_def split: option.split)

lemma power_up_voted_irrelevant [simp]:
  "gdsc_enable_power_up e (sc\<lparr>is_root_clk_voted := b\<rparr>) = gdsc_enable_power_up e sc"
proof -
  have "gdsc_enable_sw_reset e (sc\<lparr>is_root_clk_voted := b\<rparr>) = gdsc_enable_sw_reset e sc"
    by (simp add: fun_eq_iff gdsc_enable_sw_reset_def gdsc_mb_def Let_def split_def
          split: option.split)
  moreover
  have "gdsc_enable_domain_addr e (sc\<lparr>is_root_clk_voted := b\<rparr>) = gdsc_enable_domain_addr e sc"
    by (simp add: fun_eq_iff gdsc_enable_domain_addr_def gdsc_mb_def Let_def split_def
          split: option.split)
  moreover
  have "gdsc_enable_collapse e (sc\<lparr>is_root_clk_voted := b\<rparr>) = gdsc_enable_collapse e sc"
    by (simp add: fun_eq_iff gdsc_enable_collapse_def Let_def split_def split: option.split)
  ultimately show ?thesis
    by (simp add: fun_eq_iff gdsc_enable_power_up_def gdsc_mb_def)
qed

lemma retain_voted_irrelevant [simp]:
  "gdsc_enable_retain (sc\<lparr>is_root_clk_voted := b\<rparr>) = gdsc_enable_retain sc"
  by (auto simp add: fun_eq_iff gdsc_enable_retain_def)

lemma disable_collapse_voted_irrelevant [simp]:
  "gdsc_disable_collapse e (sc\<lparr>is_root_clk_voted := b\<rparr>) = gdsc_disable_collapse e sc"
  by (simp add: fun_eq_iff gdsc_disable_collapse_def gdsc_mb_def Let_def split_def
        split: option.split)

lemma disable_clamp_voted_irrelevant [simp]:
  "gdsc_disable_clamp e (sc\<lparr>is_root_clk_voted := b\<rparr>) = gdsc_disable_clamp e sc"
  by (simp add: fun_eq_iff gdsc_disable_clamp_def Let_def split_def split: option.split)

lemma gdsc_disable_clamp_trace: "gdsc_disable_clamp e sc t = t @ clamp_events e sc t"
  by (simp add: gdsc_disable_clamp_def clamp_events_def prim_defs Let_def split: option.split)

lemma poll_gdsc_status_timed_out:
  assumes "fst (poll_gdsc_status e sc status tr) \<noteq> 0"
  shows "poll_gdsc_status e sc status tr
           = (- ETIMEDOUT, tr @ poll_rounds (status_regmap sc) (nat (sint (gds_timeout sc))))"
  using assms by (rule_tac poll_gdsc_status_shape [of e sc status tr]) simp_all

lemma gdsc_disable_body_timeout:
  assumes "toggle_logic sc" "\<not> no_status_check_on_disable sc"
    and "fst (poll_gdsc_status e sc DISABLED
               (gdsc_disable_collapse e sc (tr @ force_clk_on sc @ [EvDelay 1]))) \<noteq> 0"
  shows "fst (gdsc_disable_body e sc tr) = - ETIMEDOUT"
    and "\<not> is_gdsc_enabled (fst (snd (gdsc_disable_body e sc tr)))"
    and "is_root_clk_voted (fst (snd (gdsc_disable_body e sc tr)))
           = (is_root_clk_voted sc \<and> \<not> root_en sc \<and> \<not> force_root_en sc)"
    and "snd (snd (gdsc_disable_body e sc tr))
           = gdsc_disable_collapse e sc (tr @ force_clk_on sc @ [EvDelay 1])
               @ poll_rounds (status_regmap sc) (nat (sint (gds_timeout sc)))
               @ [EvRead (regmap sc)]
               @ clamp_events e sc
                   (gdsc_disable_collapse e sc (tr @ force_clk_on sc @ [EvDelay 1])
                      @ poll_rounds (status_regmap sc) (nat (sint (gds_timeout sc)))
                      @ [EvRead (regmap sc)])
               @ disable_clk_off sc"
proof -
  note p = poll_gdsc_status_timed_out [OF assms(3)]
  have nz: "ETIMEDOUT \<noteq> 0" by (simp add: ETIMEDOUT_def)
  show "fst (gdsc_disable_body e sc tr) = - ETIMEDOUT"
    using assms(1,2) p nz
    by (cases "force_root_en sc")
       (simp_all add: gdsc_disable_body_def force_clk_on_def prim_defs Let_def split_def)
  show "\<not> is_gdsc_enabled (fst (snd (gdsc_disable_body e sc tr)))"
    by (simp add: gdsc_disable_body_def Let_def split_def)
  show "is_root_clk_voted (fst (snd (gdsc_disable_body e sc tr)))
           = (is_root_clk_voted sc \<and> \<not> root_en sc \<and> \<not> force_root_en sc)"
    using assms(1)
    by (cases "force_root_en sc"; cases "root_en sc"; cases "is_root_clk_voted sc")
       (simp_all add: gdsc_disable_body_def Let_def split_def)
  show "snd (snd (gdsc_disable_body e sc tr))
           = gdsc_disable_collapse e sc (tr @ force_clk_on sc @ [EvDelay 1])
               @ poll_rounds (status_regmap sc) (nat (sint (gds_timeout sc)))
               @ [EvRead (regmap sc)]
               @ clamp_events e sc
                   (gdsc_disable_collapse e sc (tr @ force_clk_on sc @ [EvDelay 1])
                      @ poll_rounds (status_regmap sc) (nat (sint (gds_timeout sc)))
                      @ [EvRead (regmap sc)])
               @ disable_clk_off sc"
    using assms(1,2) p nz
    by (cases "force_root_en sc")
       (simp_all add: gdsc_disable_body_def force_clk_on_def disable_clk_off_def prim_defs
          Let_def split_def gdsc_disable_clamp_trace)
qed

text \<open>
  C9. On a register-toggled domain whose parent check passes and whose status check on
  disable is not suppressed, when the poll for the disabled state times out,
  \<^verbatim>\<open>gdsc_disable\<close> goes on: after the poll it reads the primary register (for the log
  line), sets the memory I/O clamp bit when a domain-address register exists, disables the
  root clock when \<^verbatim>\<open>force_root_en\<close> holds or the clock was voted under \<^verbatim>\<open>root_en\<close>, marks
  the domain not enabled, unlocks the parent, and returns \<^verbatim>\<open>-ETIMEDOUT\<close>.
\<close>

theorem gdsc_disable_timeout_completes:
  assumes "toggle_logic (drvdata rdev)"
    and "parent_check_passes e rdev tr"
    and "\<not> no_status_check_on_disable (drvdata rdev)"
    and "fst (poll_gdsc_status e (drvdata rdev) DISABLED
               (gdsc_disable_collapse e (drvdata rdev)
                  (tr @ parent_check rdev @ force_clk_on (drvdata rdev) @ [EvDelay 1]))) \<noteq> 0"
  shows "fst (gdsc_disable e rdev tr) = - ETIMEDOUT
       \<and> \<not> is_gdsc_enabled (drvdata (fst (snd (gdsc_disable e rdev tr))))
       \<and> \<not> gdsc_is_enabled (fst (snd (gdsc_disable e rdev tr)))
       \<and> is_root_clk_voted (drvdata (fst (snd (gdsc_disable e rdev tr))))
            = (is_root_clk_voted (drvdata rdev) \<and> \<not> root_en (drvdata rdev)
               \<and> \<not> force_root_en (drvdata rdev))
       \<and> snd (snd (gdsc_disable e rdev tr))
            = gdsc_disable_collapse e (drvdata rdev)
                  (tr @ parent_check rdev @ force_clk_on (drvdata rdev) @ [EvDelay 1])
               @ poll_rounds (status_regmap (drvdata rdev)) (nat (sint (gds_timeout (drvdata rdev))))
               @ [EvRead (regmap (drvdata rdev))]
               @ clamp_events e (drvdata rdev)
                   (gdsc_disable_collapse e (drvdata rdev)
                        (tr @ parent_check rdev @ force_clk_on (drvdata rdev) @ [EvDelay 1])
                      @ poll_rounds (status_regmap (drvdata rdev))
                          (nat (sint (gds_timeout (drvdata rdev))))
                      @ [EvRead (regmap (drvdata rdev))])
               @ disable_clk_off (drvdata rdev) @ parent_unlock rdev"
proof -
  have p: "fst (poll_gdsc_status e (drvdata rdev) DISABLED
               (gdsc_disable_collapse e (drvdata rdev)
                  ((tr @ parent_check rdev) @ force_clk_on (drvdata rdev) @ [EvDelay 1]))) \<noteq> 0"
    using assms(4) by simp
  note b = gdsc_disable_body_timeout [OF assms(1) assms(3) p]
  have "\<not> gdsc_is_enabled (fst (snd (gdsc_disable e rdev tr)))"
    using assms(1) b(2)
    by (simp add: gdsc_disable_via_body [OF assms(2)] gdsc_is_enabled_def Let_def
          fst_gdsc_disable_body_flags)
  then show ?thesis
    using b by (simp add: gdsc_disable_via_body [OF assms(2)])
qed

theorem gdsc_disable_timeout_completes_witness:
  "gdsc_disable (hw_const 0x80000000)
      \<lparr>rdev_supply = Some 7,
       drvdata = gdsc_plain\<lparr>domain_addr := Some 1, force_root_en := True, root_clk_idx := 0,
                           is_gdsc_enabled := True, gds_timeout := 3\<rparr>\<rparr> []
     = (- ETIMEDOUT,
        \<lparr>rdev_supply = Some 7,
         drvdata = gdsc_plain\<lparr>domain_addr := Some 1, force_root_en := True, root_clk_idx := 0,
                             is_gdsc_enabled := False, gds_timeout := 3\<rparr>\<rparr>,
        [EvLock 7, EvIsEnabled 7, EvClkPrepareEnable 0, EvDelay 1,
         EvRead 0, EvWrite 0 0x80000001, EvRead 0, EvDelay 1,
         EvRead 0, EvDelay 1, EvRead 0, EvDelay 1, EvRead 0, EvDelay 1,
         EvRead 0,
         EvRead 1, EvWrite 1 0x80000001,
         EvClkDisableUnprepare 0, EvUnlock 7])"
proof -
  define rdev where "rdev = \<lparr>rdev_supply = Some 7,
       drvdata = gdsc_plain\<lparr>domain_addr := Some 1, force_root_en := True, root_clk_idx := 0,
                           is_gdsc_enabled := True, gds_timeout := 3\<rparr>\<rparr>"
  have 1: "toggle_logic (drvdata rdev)" by (simp add: rdev_def gdsc_plain_def)
  have 2: "parent_check_passes (hw_const 0x80000000) rdev []"
    by (simp add: rdev_def parent_check_passes_def hw_const_def)
  have 3: "\<not> no_status_check_on_disable (drvdata rdev)" by (simp add: rdev_def gdsc_plain_def)
  have 4: "fst (poll_gdsc_status (hw_const 0x80000000) (drvdata rdev) DISABLED
               (gdsc_disable_collapse (hw_const 0x80000000) (drvdata rdev)
                  ([] @ parent_check rdev @ force_clk_on (drvdata rdev) @ [EvDelay 1]))) \<noteq> 0"
    by (simp add: rdev_def gdsc_defs prim_defs const_defs gdsc_plain_def hw_const_def Let_def
          parent_check_def force_clk_on_def poll_loop.simps)
  show ?thesis
    using gdsc_disable_timeout_completes [OF 1 2 3 4]
    unfolding rdev_def
    by (simp add: gdsc_defs prim_defs const_defs gdsc_plain_def hw_const_def Let_def
          poll_loop.simps)
qed

lemma poll_gdsc_status_never:
  assumes "\<forall>h. \<not> status_matches e (status_regmap sc) status h"
  shows "poll_gdsc_status e sc status tr
           = (- ETIMEDOUT, tr @ poll_rounds (status_regmap sc) (nat (sint (gds_timeout sc))))"
  unfolding poll_gdsc_status_loop using assms by (intro poll_loop_timeout) simp

lemma gdsc_enable_timeout:
  assumes "toggle_logic (drvdata rdev)" "\<not> skip_disable_before_enable (drvdata rdev)"
    and "reg_value e (tr @ root_clk_on (drvdata rdev)) (regmap (drvdata rdev)) AND HW_CONTROL_MASK = 0"
    and "\<forall>h. reg_value e h (status_regmap (drvdata rdev)) AND PWR_ON_MASK = 0"
  shows "gdsc_enable e rdev tr =
           (- ETIMEDOUT,
            rdev\<lparr>drvdata := (if root_en (drvdata rdev) \<or> force_root_en (drvdata rdev)
                              then (drvdata rdev)\<lparr>is_root_clk_voted := True\<rparr>
                              else drvdata rdev)\<rparr>,
            snd (gdsc_enable_power_up e (drvdata rdev)
                   (reg_value e (tr @ root_clk_on (drvdata rdev)) (regmap (drvdata rdev)))
                   (tr @ root_clk_on (drvdata rdev) @ [EvRead (regmap (drvdata rdev))]))
              @ poll_rounds (status_regmap (drvdata rdev)) (nat (sint (gds_timeout (drvdata rdev))))
              @ (case hw_ctrl (drvdata rdev) of
                   None \<Rightarrow> [EvRead (regmap (drvdata rdev)),
                            EvDelay (unat (gds_timeout (drvdata rdev))),
                            EvRead (regmap (drvdata rdev))]
                 | Some h \<Rightarrow>
                     [EvRead (regmap (drvdata rdev)), EvRead h]
                       @ poll_rounds (status_regmap (drvdata rdev))
                           (nat (sint (gds_timeout (drvdata rdev))))
                       @ [EvRead (regmap (drvdata rdev)), EvRead h]))"
proof -
  have never: "\<forall>h. \<not> status_matches e (status_regmap (drvdata rdev)) ENABLED h"
    using assms(4) by (simp add: status_matches_def)
  note p = poll_gdsc_status_never [OF never]
  have nz: "ETIMEDOUT \<noteq> 0" by (simp add: ETIMEDOUT_def)
  show ?thesis
  proof (cases "root_en (drvdata rdev) \<or> force_root_en (drvdata rdev)")
    case True
    with assms(1-3) nz show ?thesis
      by (simp add: gdsc_enable_def root_clk_on_def prim_defs Let_def split_def p
            split: option.split)
  next
    case False
    with assms(1-3) nz show ?thesis
      by (simp add: gdsc_enable_def root_clk_on_def prim_defs Let_def split_def p
            split: option.split)
  qed
qed

lemma gdsc_disable_timeout:
  assumes "toggle_logic (drvdata rdev)" "parent_check_passes e rdev tr"
    and "\<not> no_status_check_on_disable (drvdata rdev)"
    and "\<forall>h. reg_value e h (status_regmap (drvdata rdev)) AND PWR_ON_MASK \<noteq> 0"
  shows "fst (gdsc_disable e rdev tr) = - ETIMEDOUT"
    and "snd (snd (gdsc_disable e rdev tr))
           = gdsc_disable_collapse e (drvdata rdev)
                 (tr @ parent_check rdev @ force_clk_on (drvdata rdev) @ [EvDelay 1])
               @ poll_rounds (status_regmap (drvdata rdev)) (nat (sint (gds_timeout (drvdata rdev))))
               @ [EvRead (regmap (drvdata rdev))]
               @ clamp_events e (drvdata rdev)
                   (gdsc_disable_collapse e (drvdata rdev)
                        (tr @ parent_check rdev @ force_clk_on (drvdata rdev) @ [EvDelay 1])
                      @ poll_rounds (status_regmap (drvdata rdev))
                          (nat (sint (gds_timeout (drvdata rdev))))
                      @ [EvRead (regmap (drvdata rdev))])
               @ disable_clk_off (drvdata rdev) @ parent_unlock rdev"
proof -
  have never: "\<forall>h. \<not> status_matches e (status_regmap (drvdata rdev)) DISABLED h"
    using assms(4) by (simp add: status_matches_def)
  have p: "fst (poll_gdsc_status e (drvdata rdev) DISABLED
               (gdsc_disable_collapse e (drvdata rdev)
                  ((tr @ parent_check rdev) @ force_clk_on (drvdata rdev) @ [EvDelay 1]))) \<noteq> 0"
    by (simp add: poll_gdsc_status_never [OF never] ETIMEDOUT_def)
  note b = gdsc_disable_body_timeout [OF assms(1) assms(3) p]
  show "fst (gdsc_disable e rdev tr) = - ETIMEDOUT"
    using b(1) by (simp add: gdsc_disable_via_body [OF assms(2)])
  show "snd (snd (gdsc_disable e rdev tr))
           = gdsc_disable_collapse e (drvdata rdev)
                 (tr @ parent_check rdev @ force_clk_on (drvdata rdev) @ [EvDelay 1])
               @ poll_rounds (status_regmap (drvdata rdev)) (nat (sint (gds_timeout (drvdata rdev))))
               @ [EvRead (regmap (drvdata rdev))]
               @ clamp_events e (drvdata rdev)
                   (gdsc_disable_collapse e (drvdata rdev)
                        (tr @ parent_check rdev @ force_clk_on (drvdata rdev) @ [EvDelay 1])
                      @ poll_rounds (status_regmap (drvdata rdev))
                          (nat (sint (gds_timeout (drvdata rdev))))
                      @ [EvRead (regmap (drvdata rdev))])
               @ disable_clk_off (drvdata rdev) @ parent_unlock rdev"
    using b(4) by (simp add: gdsc_disable_via_body [OF assms(2)])
qed

text \<open>
  C3, as the code has it. Let \<open>budget\<close> be \<^verbatim>\<open>gds_timeout\<close> read as a C \<^verbatim>\<open>int\<close> (0 when that
  is negative) and take a register-toggled domain.

  Enable: when the domain is not \<^verbatim>\<open>skip_disable_before_enable\<close>, the primary register
  reads with \<^verbatim>\<open>hw_control\<close> clear and the status register never shows \<^verbatim>\<open>pwr_on\<close>,
  \<^verbatim>\<open>gdsc_enable\<close> returns \<^verbatim>\<open>-ETIMEDOUT\<close>. After the power-up writes and the settle delay
  it runs exactly \<open>budget\<close> poll iterations when the domain has no hardware-status
  register (then one read, one delay of \<^verbatim>\<open>gds_timeout\<close> microseconds and one read), and
  exactly \<open>budget\<close> iterations, two diagnostic reads and \<open>budget\<close> iterations again when
  it has one.

  Disable: when the parent check passes, the status check is not suppressed and the status
  register always shows \<^verbatim>\<open>pwr_on\<close>, \<^verbatim>\<open>gdsc_disable\<close> returns \<^verbatim>\<open>-ETIMEDOUT\<close> after exactly
  \<open>budget\<close> poll iterations, followed by the diagnostic read, the clamp, the root-clock
  disable and the unlock.
\<close>

theorem gdsc_timeout_poll_iterations:
  "(toggle_logic (drvdata rdev) \<and> \<not> skip_disable_before_enable (drvdata rdev) \<and>
    reg_value e (tr @ root_clk_on (drvdata rdev)) (regmap (drvdata rdev)) AND HW_CONTROL_MASK = 0 \<and>
    (\<forall>h. reg_value e h (status_regmap (drvdata rdev)) AND PWR_ON_MASK = 0) \<longrightarrow>
      fst (gdsc_enable e rdev tr) = - ETIMEDOUT \<and>
      snd (snd (gdsc_enable e rdev tr))
        = snd (gdsc_enable_power_up e (drvdata rdev)
                 (reg_value e (tr @ root_clk_on (drvdata rdev)) (regmap (drvdata rdev)))
                 (tr @ root_clk_on (drvdata rdev) @ [EvRead (regmap (drvdata rdev))]))
            @ poll_rounds (status_regmap (drvdata rdev)) (nat (sint (gds_timeout (drvdata rdev))))
            @ (case hw_ctrl (drvdata rdev) of
                 None \<Rightarrow> [EvRead (regmap (drvdata rdev)),
                          EvDelay (unat (gds_timeout (drvdata rdev))),
                          EvRead (regmap (drvdata rdev))]
               | Some h \<Rightarrow>
                   [EvRead (regmap (drvdata rdev)), EvRead h]
                     @ poll_rounds (status_regmap (drvdata rdev))
                         (nat (sint (gds_timeout (drvdata rdev))))
                     @ [EvRead (regmap (drvdata rdev)), EvRead h]))
   \<and> (toggle_logic (drvdata rdev) \<and> parent_check_passes e rdev tr \<and>
      \<not> no_status_check_on_disable (drvdata rdev) \<and>
      (\<forall>h. reg_value e h (status_regmap (drvdata rdev)) AND PWR_ON_MASK \<noteq> 0) \<longrightarrow>
      fst (gdsc_disable e rdev tr) = - ETIMEDOUT \<and>
      snd (snd (gdsc_disable e rdev tr))
        = gdsc_disable_collapse e (drvdata rdev)
              (tr @ parent_check rdev @ force_clk_on (drvdata rdev) @ [EvDelay 1])
            @ poll_rounds (status_regmap (drvdata rdev)) (nat (sint (gds_timeout (drvdata rdev))))
            @ [EvRead (regmap (drvdata rdev))]
            @ clamp_events e (drvdata rdev)
                (gdsc_disable_collapse e (drvdata rdev)
                     (tr @ parent_check rdev @ force_clk_on (drvdata rdev) @ [EvDelay 1])
                   @ poll_rounds (status_regmap (drvdata rdev))
                       (nat (sint (gds_timeout (drvdata rdev))))
                   @ [EvRead (regmap (drvdata rdev))])
            @ disable_clk_off (drvdata rdev) @ parent_unlock rdev)"
proof (intro conjI impI)
  assume a: "toggle_logic (drvdata rdev) \<and> \<not> skip_disable_before_enable (drvdata rdev) \<and>
    reg_value e (tr @ root_clk_on (drvdata rdev)) (regmap (drvdata rdev)) AND HW_CONTROL_MASK = 0 \<and>
    (\<forall>h. reg_value e h (status_regmap (drvdata rdev)) AND PWR_ON_MASK = 0)"
  then have en: "gdsc_enable e rdev tr =
           (- ETIMEDOUT,
            rdev\<lparr>drvdata := (if root_en (drvdata rdev) \<or> force_root_en (drvdata rdev)
                              then (drvdata rdev)\<lparr>is_root_clk_voted := True\<rparr>
                              else drvdata rdev)\<rparr>,
            snd (gdsc_enable_power_up e (drvdata rdev)
                   (reg_value e (tr @ root_clk_on (drvdata rdev)) (regmap (drvdata rdev)))
                   (tr @ root_clk_on (drvdata rdev) @ [EvRead (regmap (drvdata rdev))]))
              @ poll_rounds (status_regmap (drvdata rdev)) (nat (sint (gds_timeout (drvdata rdev))))
              @ (case hw_ctrl (drvdata rdev) of
                   None \<Rightarrow> [EvRead (regmap (drvdata rdev)),
                            EvDelay (unat (gds_timeout (drvdata rdev))),
                            EvRead (regmap (drvdata rdev))]
                 | Some h \<Rightarrow>
                     [EvRead (regmap (drvdata rdev)), EvRead h]
                       @ poll_rounds (status_regmap (drvdata rdev))
                           (nat (sint (gds_timeout (drvdata rdev))))
                       @ [EvRead (regmap (drvdata rdev)), EvRead h]))"
    by (intro gdsc_enable_timeout) simp_all
  show "fst (gdsc_enable e rdev tr) = - ETIMEDOUT" by (simp add: en)
  show "snd (snd (gdsc_enable e rdev tr))
        = snd (gdsc_enable_power_up e (drvdata rdev)
                 (reg_value e (tr @ root_clk_on (drvdata rdev)) (regmap (drvdata rdev)))
                 (tr @ root_clk_on (drvdata rdev) @ [EvRead (regmap (drvdata rdev))]))
            @ poll_rounds (status_regmap (drvdata rdev)) (nat (sint (gds_timeout (drvdata rdev))))
            @ (case hw_ctrl (drvdata rdev) of
                 None \<Rightarrow> [EvRead (regmap (drvdata rdev)),
                          EvDelay (unat (gds_timeout (drvdata rdev))),
                          EvRead (regmap (drvdata rdev))]
               | Some h \<Rightarrow>
                   [EvRead (regmap (drvdata rdev)), EvRead h]
                     @ poll_rounds (status_regmap (drvdata rdev))
                         (nat (sint (gds_timeout (drvdata rdev))))
                     @ [EvRead (regmap (drvdata rdev)), EvRead h])"
    by (simp add: en)
next
  assume a: "toggle_logic (drvdata rdev) \<and> parent_check_passes e rdev tr \<and>
      \<not> no_status_check_on_disable (drvdata rdev) \<and>
      (\<forall>h. reg_value e h (status_regmap (drvdata rdev)) AND PWR_ON_MASK \<noteq> 0)"
  then show "fst (gdsc_disable e rdev tr) = - ETIMEDOUT"
    by (intro gdsc_disable_timeout(1)) simp_all
  from a show "snd (snd (gdsc_disable e rdev tr))
        = gdsc_disable_collapse e (drvdata rdev)
              (tr @ parent_check rdev @ force_clk_on (drvdata rdev) @ [EvDelay 1])
            @ poll_rounds (status_regmap (drvdata rdev)) (nat (sint (gds_timeout (drvdata rdev))))
            @ [EvRead (regmap (drvdata rdev))]
            @ clamp_events e (drvdata rdev)
                (gdsc_disable_collapse e (drvdata rdev)
                     (tr @ parent_check rdev @ force_clk_on (drvdata rdev) @ [EvDelay 1])
                   @ poll_rounds (status_regmap (drvdata rdev))
                       (nat (sint (gds_timeout (drvdata rdev))))
                   @ [EvRead (regmap (drvdata rdev))])
            @ disable_clk_off (drvdata rdev) @ parent_unlock rdev"
    by (intro gdsc_disable_timeout(2)) simp_all
qed

theorem gdsc_timeout_poll_iterations_witness:
  "gdsc_enable (hw_const 0) \<lparr>rdev_supply = None, drvdata = gdsc_plain\<lparr>gds_timeout := 3\<rparr>\<rparr> []
     = (- ETIMEDOUT, \<lparr>rdev_supply = None, drvdata = gdsc_plain\<lparr>gds_timeout := 3\<rparr>\<rparr>,
        [EvRead 0, EvRead 0, EvWrite 0 0, EvRead 0, EvDelay 1,
         EvRead 0, EvDelay 1, EvRead 0, EvDelay 1, EvRead 0, EvDelay 1,
         EvRead 0, EvDelay 3, EvRead 0])
   \<and> fst (gdsc_disable (hw_const 0x80000000)
            \<lparr>rdev_supply = None, drvdata = gdsc_plain\<lparr>gds_timeout := 3\<rparr>\<rparr> []) = - ETIMEDOUT
   \<and> snd (snd (gdsc_disable (hw_const 0x80000000)
            \<lparr>rdev_supply = None, drvdata = gdsc_plain\<lparr>gds_timeout := 3\<rparr>\<rparr> []))
       = [EvDelay 1, EvRead 0, EvWrite 0 0x80000001, EvRead 0, EvDelay 1,
          EvRead 0, EvDelay 1, EvRead 0, EvDelay 1, EvRead 0, EvDelay 1,
          EvRead 0]"
  using gdsc_timeout_poll_iterations
      [of "\<lparr>rdev_supply = None, drvdata = gdsc_plain\<lparr>gds_timeout := 3\<rparr>\<rparr>" "hw_const 0" "[]"]
    gdsc_timeout_poll_iterations
      [of "\<lparr>rdev_supply = None, drvdata = gdsc_plain\<lparr>gds_timeout := 3\<rparr>\<rparr>" "hw_const 0x80000000" "[]"]
  by (simp add: gdsc_defs prim_defs const_defs gdsc_plain_def hw_const_def Let_def
        poll_loop.simps root_clk_on_def force_clk_on_def disable_clk_off_def parent_check_def
        parent_check_passes_def parent_unlock_def clamp_events_def status_regmap_def)

text \<open>
  A register-toggled domain with a hardware-status register (regmap 1) that never shows
  \<^verbatim>\<open>pwr_on\<close>, and \<^verbatim>\<open>gds_timeout\<close> = 3: \<^verbatim>\<open>gdsc_enable\<close> returns \<^verbatim>\<open>-ETIMEDOUT\<close> after six
  poll iterations, three in the first poll and three in the re-poll of line 288.
\<close>

theorem gdsc_enable_repoll_doubles:
  "gdsc_enable (hw_const 0)
      \<lparr>rdev_supply = None, drvdata = gdsc_plain\<lparr>hw_ctrl := Some 1, gds_timeout := 3\<rparr>\<rparr> []
     = (- ETIMEDOUT,
        \<lparr>rdev_supply = None, drvdata = gdsc_plain\<lparr>hw_ctrl := Some 1, gds_timeout := 3\<rparr>\<rparr>,
        [EvRead 0, EvRead 0, EvWrite 0 0, EvRead 0, EvDelay 1,
         EvRead 1, EvDelay 1, EvRead 1, EvDelay 1, EvRead 1, EvDelay 1,
         EvRead 0, EvRead 1,
         EvRead 1, EvDelay 1, EvRead 1, EvDelay 1, EvRead 1, EvDelay 1,
         EvRead 0, EvRead 1])"
  by (simp add: gdsc_defs prim_defs const_defs gdsc_plain_def hw_const_def Let_def
        poll_loop.simps)

section \<open>The retention write on the vote path, the root clock on the timeout path\<close>

lemma clk_off_notin_poll_rounds [simp]: "EvClkDisableUnprepare c \<notin> set (poll_rounds r n)"
  by (induction n) (simp_all add: poll_rounds_Suc)

text \<open>
  The vote path by itself: with a collapse vote configured, the flip of \<^verbatim>\<open>gdsc_enable\<close>
  is one \<^verbatim>\<open>regmap_update_bits\<close> of the vote register with mask \<^verbatim>\<open>BIT(vote_bit)\<close> that
  leaves \<^verbatim>\<open>regval\<close> as it was, and the register writes of \<^verbatim>\<open>gdsc_disable\<close> up to the
  poll are the reset of the ACD-misc block (when configured) and one
  \<^verbatim>\<open>regmap_update_bits\<close> of the vote register with the same mask.
\<close>

lemma gdsc_enable_collapse_vote:
  "collapse_vote_regmap sc = Some v \<Longrightarrow>
   gdsc_enable_collapse e sc regval tr
     = (regval,
        tr @ [EvUpdateBits v (BIT (collapse_vote_bit sc)) (NOT (BIT (collapse_vote_bit sc)))])"
  by (simp add: gdsc_enable_collapse_def regmap_update_bits_def)

lemma gdsc_disable_collapse_vote:
  "collapse_vote_regmap sc = Some v \<Longrightarrow>
   reg_writes (gdsc_disable_collapse e sc tr)
     = reg_writes tr
         @ (case sw_reset sc of
              Some swr \<Rightarrow>
                (case acd_misc_reset sc of
                   Some a \<Rightarrow> [EvUpdateBits a BCR_BLK_ARES_BIT BCR_BLK_ARES_BIT]
                 | None \<Rightarrow> [])
            | None \<Rightarrow> [])
         @ [EvUpdateBits v (BIT (collapse_vote_bit sc)) (BIT (collapse_vote_bit sc))]"
  by (simp add: gdsc_disable_collapse_def prim_defs Let_def split: option.split)

text \<open>
  C4 at a failing input: a register-toggled domain with a collapse vote (regmap 2, bit 3),
  a domain-address register (regmap 1) and \<^verbatim>\<open>retain_ff_enable\<close>. The primary register
  reads \<open>0x80000001\<close> (collapse bit set), the domain-address register reads 1.
  \<^verbatim>\<open>gdsc_enable\<close> clears bit 3 of the vote register through \<^verbatim>\<open>regmap_update_bits\<close> and
  then, at line 315, writes \<open>0x800\<close> to the primary register: the value last read from
  the domain-address register with the clamp bit cleared and bit 11 set. The primary
  collapse bit is written as 0.
\<close>

theorem gdsc_enable_vote_retain_writes_primary:
  "reg_value (hw_regs (\<lambda>r. if r = 0 then 0x80000001 else 1)) [] 0 AND SW_COLLAPSE_MASK = 1
   \<and> gdsc_enable (hw_regs (\<lambda>r. if r = 0 then 0x80000001 else 1))
      \<lparr>rdev_supply = None,
       drvdata = gdsc_plain\<lparr>domain_addr := Some 1, collapse_vote_regmap := Some 2,
                           collapse_vote_bit := 3, retain_ff_enable := True\<rparr>\<rparr> []
     = (0,
        \<lparr>rdev_supply = None,
         drvdata = gdsc_plain\<lparr>domain_addr := Some 1, collapse_vote_regmap := Some 2,
                             collapse_vote_bit := 3, retain_ff_enable := True,
                             is_gdsc_enabled := True\<rparr>\<rparr>,
        [EvRead 0,
         EvRead 1, EvWrite 1 0, EvRead 0,
         EvUpdateBits 2 8 0xFFFFFFF7,
         EvRead 0, EvDelay 1,
         EvRead 0,
         EvWrite 0 0x800,
         EvDelay 1, EvDelay 1])"
  by (simp add: gdsc_defs prim_defs const_defs gdsc_plain_def hw_regs_def Let_def
        poll_loop.simps)

text \<open>
  C5 at a failing input: a register-toggled domain with \<^verbatim>\<open>force_root_en\<close> (root clock 0),
  the default timeout of 100, and a primary register that always reads 0. \<^verbatim>\<open>gdsc_enable\<close>
  enables the root clock, times out and returns \<^verbatim>\<open>-ETIMEDOUT\<close> at line 309: the root clock
  is never disabled and \<^verbatim>\<open>is_root_clk_voted\<close> stays true.
\<close>

theorem gdsc_enable_timeout_leaves_root_clk_on:
  "gdsc_enable (hw_const 0)
      \<lparr>rdev_supply = None, drvdata = gdsc_plain\<lparr>force_root_en := True, root_clk_idx := 0\<rparr>\<rparr> []
     = (- ETIMEDOUT,
        \<lparr>rdev_supply = None,
         drvdata = gdsc_plain\<lparr>force_root_en := True, root_clk_idx := 0,
                             is_root_clk_voted := True\<rparr>\<rparr>,
        [EvClkPrepareEnable 0, EvRead 0, EvRead 0, EvWrite 0 0, EvRead 0, EvDelay 1]
          @ poll_rounds 0 100 @ [EvRead 0, EvDelay 100, EvRead 0])
   \<and> EvClkDisableUnprepare 0 \<notin> set (snd (snd (gdsc_enable (hw_const 0)
      \<lparr>rdev_supply = None, drvdata = gdsc_plain\<lparr>force_root_en := True, root_clk_idx := 0\<rparr>\<rparr> [])))"
proof -
  define rdev where
    "rdev = \<lparr>rdev_supply = None, drvdata = gdsc_plain\<lparr>force_root_en := True, root_clk_idx := 0\<rparr>\<rparr>"
  have 1: "toggle_logic (drvdata rdev)" by (simp add: rdev_def gdsc_plain_def)
  have 2: "\<not> skip_disable_before_enable (drvdata rdev)" by (simp add: rdev_def gdsc_plain_def)
  have 3: "reg_value (hw_const 0) ([] @ root_clk_on (drvdata rdev)) (regmap (drvdata rdev))
             AND HW_CONTROL_MASK = 0"
    by (simp add: hw_const_def)
  have 4: "\<forall>h. reg_value (hw_const 0) h (status_regmap (drvdata rdev)) AND PWR_ON_MASK = 0"
    by (simp add: hw_const_def)
  have en: "gdsc_enable (hw_const 0) rdev []
     = (- ETIMEDOUT,
        \<lparr>rdev_supply = None,
         drvdata = gdsc_plain\<lparr>force_root_en := True, root_clk_idx := 0,
                             is_root_clk_voted := True\<rparr>\<rparr>,
        [EvClkPrepareEnable 0, EvRead 0, EvRead 0, EvWrite 0 0, EvRead 0, EvDelay 1]
          @ poll_rounds 0 100 @ [EvRead 0, EvDelay 100, EvRead 0])"
    unfolding gdsc_enable_timeout [OF 1 2 3 4]
    by (simp add: rdev_def gdsc_plain_def hw_const_def root_clk_on_def status_regmap_def
          gdsc_enable_power_up_def gdsc_enable_sw_reset_def gdsc_enable_domain_addr_def
          gdsc_enable_collapse_def prim_defs const_defs Let_def)
  show ?thesis
    unfolding rdev_def [symmetric] en by simp
qed

end
